theory Spec2Isabelle
  imports Complex_Main "HOL-Library.AList"
begin

section \<open>Python values, exceptions and dictionaries\<close>

text \<open>
  The module \<^verbatim>\<open>multiqc/modules/dragen/mapping_metrics.py\<close> stores three kinds of
  Python objects in its metric records: \<^verbatim>\<open>int\<close> (unbounded), \<^verbatim>\<open>float\<close> and \<^verbatim>\<open>str\<close>.
  A float is modelled by the exact rational number it denotes (every finite binary64
  number is a rational), or one of the three special values. The two zeros are
  identified: the code never observes the sign of a zero. Rounding to binary64 is not
  computed here: every operation that rounds takes the rounding function \<open>rnd\<close> as a
  parameter, so each theorem holds for every rounding function, the IEEE one included.
\<close>

datatype pyfloat = Fin rat | PInf | NInf | NaN

datatype pyval = IntV int | FloatV pyfloat | StrV string

text \<open>The exceptions the module can raise; \<open>KeyError\<close> carries the missing key.\<close>

datatype error =
    KeyError string
  | IndexError
  | TypeError
  | ValueError
  | ZeroDivisionError
  | OverflowError
  | AttributeError

fun ebind :: "error + 'a \<Rightarrow> ('a \<Rightarrow> error + 'b) \<Rightarrow> error + 'b" where
  "ebind (Inl e) k = Inl e"
| "ebind (Inr x) k = k x"

text \<open>Python's \<^verbatim>\<open>==\<close> on these objects. Numbers compare by exact value, \<^verbatim>\<open>nan\<close> equals
  nothing, a string never equals a number.\<close>

fun py_eq :: "pyval \<Rightarrow> pyval \<Rightarrow> bool" where
  "py_eq (IntV a) (IntV b) = (a = b)"
| "py_eq (IntV a) (FloatV (Fin q)) = (of_int a = q)"
| "py_eq (FloatV (Fin q)) (IntV a) = (q = of_int a)"
| "py_eq (FloatV x) (FloatV y) = (x = y \<and> x \<noteq> NaN)"
| "py_eq (StrV s) (StrV t) = (s = t)"
| "py_eq _ _ = False"

definition py_ne :: "pyval \<Rightarrow> pyval \<Rightarrow> bool" where
  "py_ne a b = (\<not> py_eq a b)"

text \<open>\<^verbatim>\<open>x > 0\<close>: a \<^verbatim>\<open>TypeError\<close> for a string (Python 3).\<close>

fun py_gt_zero :: "pyval \<Rightarrow> error + bool" where
  "py_gt_zero (IntV a) = Inr (0 < a)"
| "py_gt_zero (FloatV (Fin q)) = Inr (0 < q)"
| "py_gt_zero (FloatV PInf) = Inr True"
| "py_gt_zero (FloatV NInf) = Inr False"
| "py_gt_zero (FloatV NaN) = Inr False"
| "py_gt_zero (StrV s) = Inl TypeError"

text \<open>Conversion of an \<^verbatim>\<open>int\<close> operand to \<^verbatim>\<open>float\<close>: \<^verbatim>\<open>OverflowError\<close> when it is out
  of range.\<close>

definition to_float :: "(rat \<Rightarrow> pyfloat) \<Rightarrow> int \<Rightarrow> error + pyfloat" where
  "to_float rnd i =
     (case rnd (of_int i) of
        PInf \<Rightarrow> Inl OverflowError
      | NInf \<Rightarrow> Inl OverflowError
      | x \<Rightarrow> Inr x)"

fun fdiv :: "(rat \<Rightarrow> pyfloat) \<Rightarrow> pyfloat \<Rightarrow> pyfloat \<Rightarrow> error + pyfloat" where
  "fdiv rnd x (Fin b) =
     (if b = 0 then Inl ZeroDivisionError
      else Inr (case x of
                  Fin a \<Rightarrow> rnd (a / b)
                | PInf \<Rightarrow> (if 0 < b then PInf else NInf)
                | NInf \<Rightarrow> (if 0 < b then NInf else PInf)
                | NaN \<Rightarrow> NaN))"
| "fdiv rnd x NaN = Inr NaN"
| "fdiv rnd (Fin a) y = Inr (Fin 0)"
| "fdiv rnd x y = Inr NaN"

fun fmul :: "(rat \<Rightarrow> pyfloat) \<Rightarrow> pyfloat \<Rightarrow> pyfloat \<Rightarrow> pyfloat" where
  "fmul rnd NaN y = NaN"
| "fmul rnd x NaN = NaN"
| "fmul rnd (Fin a) (Fin b) = rnd (a * b)"
| "fmul rnd (Fin a) PInf = (if a = 0 then NaN else if 0 < a then PInf else NInf)"
| "fmul rnd (Fin a) NInf = (if a = 0 then NaN else if 0 < a then NInf else PInf)"
| "fmul rnd PInf (Fin b) = (if b = 0 then NaN else if 0 < b then PInf else NInf)"
| "fmul rnd NInf (Fin b) = (if b = 0 then NaN else if 0 < b then NInf else PInf)"
| "fmul rnd PInf PInf = PInf"
| "fmul rnd NInf NInf = PInf"
| "fmul rnd PInf NInf = NInf"
| "fmul rnd NInf PInf = NInf"

fun fadd :: "(rat \<Rightarrow> pyfloat) \<Rightarrow> pyfloat \<Rightarrow> pyfloat \<Rightarrow> pyfloat" where
  "fadd rnd NaN y = NaN"
| "fadd rnd x NaN = NaN"
| "fadd rnd (Fin a) (Fin b) = rnd (a + b)"
| "fadd rnd (Fin a) y = y"
| "fadd rnd x (Fin b) = x"
| "fadd rnd PInf PInf = PInf"
| "fadd rnd NInf NInf = NInf"
| "fadd rnd PInf NInf = NaN"
| "fadd rnd NInf PInf = NaN"

text \<open>\<^verbatim>\<open>a / b\<close> (true division, Python 3). The quotient of two \<^verbatim>\<open>int\<close>s is rounded
  once, and raises \<^verbatim>\<open>OverflowError\<close> when it is out of the float range.\<close>

fun py_truediv :: "(rat \<Rightarrow> pyfloat) \<Rightarrow> pyval \<Rightarrow> pyval \<Rightarrow> error + pyval" where
  "py_truediv rnd (IntV a) (IntV b) =
     (if b = 0 then Inl ZeroDivisionError
      else (case rnd (of_int a / of_int b) of
              PInf \<Rightarrow> Inl OverflowError
            | NInf \<Rightarrow> Inl OverflowError
            | x \<Rightarrow> Inr (FloatV x)))"
| "py_truediv rnd (IntV a) (FloatV y) =
     ebind (to_float rnd a) (\<lambda>x. ebind (fdiv rnd x y) (\<lambda>r. Inr (FloatV r)))"
| "py_truediv rnd (FloatV x) (IntV b) =
     ebind (to_float rnd b) (\<lambda>y. ebind (fdiv rnd x y) (\<lambda>r. Inr (FloatV r)))"
| "py_truediv rnd (FloatV x) (FloatV y) = ebind (fdiv rnd x y) (\<lambda>r. Inr (FloatV r))"
| "py_truediv rnd _ _ = Inl TypeError"

text \<open>\<^verbatim>\<open>a * b\<close>; a string times an \<^verbatim>\<open>int\<close> repeats the string.\<close>

fun py_mul :: "(rat \<Rightarrow> pyfloat) \<Rightarrow> pyval \<Rightarrow> pyval \<Rightarrow> error + pyval" where
  "py_mul rnd (IntV a) (IntV b) = Inr (IntV (a * b))"
| "py_mul rnd (IntV a) (FloatV y) = ebind (to_float rnd a) (\<lambda>x. Inr (FloatV (fmul rnd x y)))"
| "py_mul rnd (FloatV x) (IntV b) = ebind (to_float rnd b) (\<lambda>y. Inr (FloatV (fmul rnd x y)))"
| "py_mul rnd (FloatV x) (FloatV y) = Inr (FloatV (fmul rnd x y))"
| "py_mul rnd (StrV s) (IntV n) = Inr (StrV (concat (replicate (nat n) s)))"
| "py_mul rnd (IntV n) (StrV s) = Inr (StrV (concat (replicate (nat n) s)))"
| "py_mul rnd _ _ = Inl TypeError"

text \<open>\<^verbatim>\<open>a + b\<close>; two strings are concatenated.\<close>

fun py_add :: "(rat \<Rightarrow> pyfloat) \<Rightarrow> pyval \<Rightarrow> pyval \<Rightarrow> error + pyval" where
  "py_add rnd (IntV a) (IntV b) = Inr (IntV (a + b))"
| "py_add rnd (IntV a) (FloatV y) = ebind (to_float rnd a) (\<lambda>x. Inr (FloatV (fadd rnd x y)))"
| "py_add rnd (FloatV x) (IntV b) = ebind (to_float rnd b) (\<lambda>y. Inr (FloatV (fadd rnd x y)))"
| "py_add rnd (FloatV x) (FloatV y) = Inr (FloatV (fadd rnd x y))"
| "py_add rnd (StrV s) (StrV t) = Inr (StrV (s @ t))"
| "py_add rnd _ _ = Inl TypeError"

text \<open>
  A \<^verbatim>\<open>dict\<close> keeps its keys in insertion order, and the module iterates over its
  dictionaries, so a dictionary is an association list: \<^const>\<open>AList.update\<close> overwrites
  the value of a key in place or appends a new key at the end, as \<^verbatim>\<open>d[k] = v\<close> does.
\<close>

type_synonym 'v pydict = "(string \<times> 'v) list"

definition dict_get :: "'v pydict \<Rightarrow> string \<Rightarrow> error + 'v" where
  "dict_get d k = (case map_of d k of None \<Rightarrow> Inl (KeyError k) | Some v \<Rightarrow> Inr v)"

definition dict_has :: "'v pydict \<Rightarrow> string \<Rightarrow> bool" where
  "dict_has d k = (map_of d k \<noteq> None)"

definition dict_del :: "'v pydict \<Rightarrow> string \<Rightarrow> error + 'v pydict" where
  "dict_del d k = (if dict_has d k then Inr (AList.delete k d) else Inl (KeyError k))"

text \<open>\<^verbatim>\<open>defaultdict(dict)\<close>: reading a missing key gives an empty dictionary.\<close>

definition dd_get :: "'v pydict pydict \<Rightarrow> string \<Rightarrow> 'v pydict" where
  "dd_get d k = (case map_of d k of None \<Rightarrow> [] | Some r \<Rightarrow> r)"

definition dd_set :: "'v pydict pydict \<Rightarrow> string \<Rightarrow> string \<Rightarrow> 'v \<Rightarrow> 'v pydict pydict" where
  "dd_set d k m v = AList.update k (AList.update m v (dd_get d k)) d"

definition nth_err :: "'a list \<Rightarrow> nat \<Rightarrow> error + 'a" where
  "nth_err xs i = (if i < length xs then Inr (xs ! i) else Inl IndexError)"

section \<open>Strings\<close>

text \<open>A character is a code point below 256. \<^verbatim>\<open>s.split(c)\<close> for a separator of one
  character: the result is never empty.\<close>

fun split_on :: "char \<Rightarrow> string \<Rightarrow> string list" where
  "split_on c [] = [[]]"
| "split_on c (x # xs) =
     (if x = c then [] # split_on c xs
      else (case split_on c xs of
              [] \<Rightarrow> [[x]]
            | w # ws \<Rightarrow> (x # w) # ws))"

text \<open>\<^verbatim>\<open>s.splitlines()\<close>: the line boundaries below 256 are LF, VT, FF, CR, CR LF, FS,
  GS, RS and NEL; no empty last line is produced.\<close>

definition is_linebreak :: "char \<Rightarrow> bool" where
  "is_linebreak c =
     (c \<in> set [CHR 0x0A, CHR 0x0B, CHR 0x0C, CHR 0x0D, CHR 0x1C, CHR 0x1D, CHR 0x1E, CHR 0x85])"

fun splitlines_from :: "string \<Rightarrow> string \<Rightarrow> string list" where
  "splitlines_from cur [] = (if cur = [] then [] else [rev cur])"
| "splitlines_from cur [x] = (if is_linebreak x then [rev cur] else [rev (x # cur)])"
| "splitlines_from cur (x # y # ys) =
     (if x = CHR 0x0D \<and> y = CHR 0x0A then rev cur # splitlines_from [] ys
      else if is_linebreak x then rev cur # splitlines_from [] (y # ys)
      else splitlines_from (x # cur) (y # ys))"

definition splitlines :: "string \<Rightarrow> string list" where
  "splitlines s = splitlines_from [] s"

text \<open>\<^verbatim>\<open>s.lower()\<close> on code points below 256: A to Z, and the Latin-1 capitals.\<close>

definition lower_char :: "char \<Rightarrow> char" where
  "lower_char c =
     (let n = (of_char c :: nat) in
      if (65 \<le> n \<and> n \<le> 90) \<or> (192 \<le> n \<and> n \<le> 222 \<and> n \<noteq> 215)
      then char_of (n + 32) else c)"

definition lower :: "string \<Rightarrow> string" where
  "lower s = map lower_char s"

text \<open>The white space that \<^verbatim>\<open>int()\<close> and \<^verbatim>\<open>float()\<close> strip from both ends: the ASCII
  white space (tab to carriage return, and the space) and, of the code points from 128
  to 255, NEL and the no-break space. The separators 28 to 31 are not stripped.\<close>

definition is_space :: "char \<Rightarrow> bool" where
  "is_space c =
     (let n = (of_char c :: nat) in
      (9 \<le> n \<and> n \<le> 13) \<or> n = 32 \<or> n = 133 \<or> n = 160)"

definition strip :: "string \<Rightarrow> string" where
  "strip s = rev (dropWhile is_space (rev (dropWhile is_space s)))"

text \<open>\<^verbatim>\<open>s.replace(old, new)\<close> for a non-empty \<open>old\<close>: every occurrence, left to right,
  without overlap. The counter is the number of characters of a replaced occurrence
  that are still to be dropped.\<close>

fun replace_from :: "string \<Rightarrow> string \<Rightarrow> nat \<Rightarrow> string \<Rightarrow> string" where
  "replace_from old new k [] = []"
| "replace_from old new (Suc k) (x # xs) = replace_from old new k xs"
| "replace_from old new 0 (x # xs) =
     (if take (length old) (x # xs) = old
      then new @ replace_from old new (length old - 1) xs
      else x # replace_from old new 0 xs)"

definition replace :: "string \<Rightarrow> string \<Rightarrow> string \<Rightarrow> string" where
  "replace s old new = replace_from old new 0 s"

text \<open>\<^verbatim>\<open>template.format(arg)\<close> for a template with at most one \<^verbatim>\<open>{}\<close> field and no
  other brace, which is what the catalog's description templates are: the field, when
  there is one, is replaced by the argument.\<close>

fun format_field :: "string \<Rightarrow> string \<Rightarrow> string" where
  "format_field [] arg = []"
| "format_field [x] arg = [x]"
| "format_field (x # y # ys) arg =
     (if x = CHR ''{'' \<and> y = CHR ''}'' then arg @ ys else x # format_field (y # ys) arg)"

text \<open>Python's \<^verbatim>\<open>str(n)\<close> for a natural number (the module formats a \<^verbatim>\<open>len\<close>).\<close>

definition digit_char :: "nat \<Rightarrow> char" where
  "digit_char d = char_of (48 + d)"

fun str_nat :: "nat \<Rightarrow> string" where
  "str_nat n = (if n < 10 then [digit_char n] else str_nat (n div 10) @ [digit_char (n mod 10)])"

declare str_nat.simps [simp del]

section \<open>\<^verbatim>\<open>int()\<close> and \<^verbatim>\<open>float()\<close> on strings\<close>

definition is_digit :: "char \<Rightarrow> bool" where
  "is_digit c = (let n = (of_char c :: nat) in 48 \<le> n \<and> n \<le> 57)"

definition digit_val :: "char \<Rightarrow> int" where
  "digit_val c = of_char c - 48"

text \<open>The decimal reading of a string of digits.\<close>

definition int_of_digits :: "string \<Rightarrow> int" where
  "int_of_digits ds = foldl (\<lambda>a c. 10 * a + digit_val c) 0 ds"

text \<open>A digit part: digits, with single underscores allowed between two digits. The
  result is the digits without the underscores.\<close>

fun digitpart_from :: "bool \<Rightarrow> string \<Rightarrow> string option" where
  "digitpart_from after_digit [] = (if after_digit then Some [] else None)"
| "digitpart_from after_digit (c # cs) =
     (if is_digit c then map_option (Cons c) (digitpart_from True cs)
      else if c = CHR ''_'' \<and> after_digit then digitpart_from False cs
      else None)"

definition digitpart :: "string \<Rightarrow> string option" where
  "digitpart s = digitpart_from False s"

text \<open>An optional sign: the sign as a factor, and the rest.\<close>

fun split_sign :: "string \<Rightarrow> int \<times> string" where
  "split_sign [] = (1, [])"
| "split_sign (c # cs) =
     (if c = CHR ''-'' then (- 1, cs) else if c = CHR ''+'' then (1, cs) else (1, c # cs))"

text \<open>\<^verbatim>\<open>int(s)\<close> in base ten: \<open>None\<close> stands for \<^verbatim>\<open>ValueError\<close>.\<close>

definition py_int :: "string \<Rightarrow> int option" where
  "py_int s =
     (let (sg, r) = split_sign (strip s) in
      map_option (\<lambda>ds. sg * int_of_digits ds) (digitpart r))"

text \<open>
  \<^verbatim>\<open>float(s)\<close>: white space stripped, an optional sign, then \<^verbatim>\<open>inf\<close>, \<^verbatim>\<open>infinity\<close> or
  \<^verbatim>\<open>nan\<close> in any case, or a decimal number: digit parts around an optional point, one
  of them at least, and an optional exponent. The exact decimal value is rounded by
  \<open>rnd\<close>. \<open>None\<close> stands for \<^verbatim>\<open>ValueError\<close>.
\<close>

definition split_at_first :: "(char \<Rightarrow> bool) \<Rightarrow> string \<Rightarrow> string \<times> string option" where
  "split_at_first p s =
     (case dropWhile (\<lambda>c. \<not> p c) s of
        [] \<Rightarrow> (s, None)
      | _ # r \<Rightarrow> (takeWhile (\<lambda>c. \<not> p c) s, Some r))"

definition opt_digitpart :: "string \<Rightarrow> string option" where
  "opt_digitpart s = (if s = [] then Some [] else digitpart s)"

definition mantissa :: "string \<Rightarrow> rat option" where
  "mantissa s =
     (case split_at_first (\<lambda>c. c = CHR ''.'') s of
        (ip, None) \<Rightarrow> map_option (\<lambda>ds. of_int (int_of_digits ds)) (digitpart ip)
      | (ip, Some fp) \<Rightarrow>
          (if ip = [] \<and> fp = [] then None
           else (case (opt_digitpart ip, opt_digitpart fp) of
                   (Some ids, Some fds) \<Rightarrow>
                     Some (of_int (int_of_digits ids)
                           + of_int (int_of_digits fds) / 10 ^ length fds)
                 | _ \<Rightarrow> None)))"

definition exponent :: "string \<Rightarrow> int option" where
  "exponent s =
     (let (sg, r) = split_sign s in map_option (\<lambda>ds. sg * int_of_digits ds) (digitpart r))"

definition scale10 :: "rat \<Rightarrow> int \<Rightarrow> rat" where
  "scale10 m e = (if 0 \<le> e then m * 10 ^ nat e else m / 10 ^ nat (- e))"

definition decimal :: "string \<Rightarrow> rat option" where
  "decimal s =
     (case split_at_first (\<lambda>c. c = CHR ''e'' \<or> c = CHR ''E'') s of
        (m, None) \<Rightarrow> mantissa m
      | (m, Some e) \<Rightarrow>
          (case (mantissa m, exponent e) of
             (Some q, Some k) \<Rightarrow> Some (scale10 q k)
           | _ \<Rightarrow> None))"

definition py_float :: "(rat \<Rightarrow> pyfloat) \<Rightarrow> string \<Rightarrow> pyfloat option" where
  "py_float rnd s =
     (let (sg, r) = split_sign (strip s) in
      if lower r = ''inf'' \<or> lower r = ''infinity'' then Some (if sg < 0 then NInf else PInf)
      else if lower r = ''nan'' then Some NaN
      else map_option (\<lambda>q. rnd (of_int sg * q)) (decimal r))"

text \<open>Lines 306 to 312: try \<^verbatim>\<open>int\<close>, then \<^verbatim>\<open>float\<close>, else keep the string.\<close>

definition coerce_value :: "(rat \<Rightarrow> pyfloat) \<Rightarrow> string \<Rightarrow> pyval" where
  "coerce_value rnd s =
     (case py_int s of
        Some i \<Rightarrow> IntV i
      | None \<Rightarrow> (case py_float rnd s of Some x \<Rightarrow> FloatV x | None \<Rightarrow> StrV s))"

text \<open>Lines 316 to 320: the percentage field is only tried as a \<^verbatim>\<open>float\<close>.\<close>

definition coerce_percentage :: "(rat \<Rightarrow> pyfloat) \<Rightarrow> string \<Rightarrow> pyval" where
  "coerce_percentage rnd s = (case py_float rnd s of Some x \<Rightarrow> FloatV x | None \<Rightarrow> StrV s)"

section \<open>The record parser: \<^verbatim>\<open>parse_mapping_metrics_file\<close>\<close>

text \<open>A metric record maps metric identifiers to values; the per-read-group and the
  per-phenotype data map an entity to its record.\<close>

type_synonym metric_record = "pyval pydict"

type_synonym records = "metric_record pydict"

text \<open>The file object \<^verbatim>\<open>f\<close> that \<^verbatim>\<open>find_log_files\<close> yields: \<^verbatim>\<open>f['fn']\<close> is the file
  name, \<^verbatim>\<open>f['f']\<close> the text of the file.\<close>

record log_file =
  fn :: string
  f_text :: string

text \<open>
  Line 295: \<^verbatim>\<open>re.search(r'(.*).mapping_metrics.csv', f['fn']).group(1)\<close>. In the
  pattern every dot matches any character but a line feed. The search takes the
  leftmost start, and the group is greedy: it ends at the last place where the twenty
  characters of the rest of the pattern match. When nothing matches, \<^verbatim>\<open>.group\<close> of
  \<^verbatim>\<open>None\<close> raises \<^verbatim>\<open>AttributeError\<close>.
\<close>

definition suffix_matches :: "string \<Rightarrow> bool" where
  "suffix_matches t =
     (20 \<le> length t \<and> t ! 0 \<noteq> CHR 0x0A \<and> take 15 (drop 1 t) = ''mapping_metrics''
      \<and> t ! 16 \<noteq> CHR 0x0A \<and> take 3 (drop 17 t) = ''csv'')"

definition match_here :: "string \<Rightarrow> string option" where
  "match_here t =
     (let n = length (takeWhile (\<lambda>c. c \<noteq> CHR 0x0A) t) in
      case filter (\<lambda>i. suffix_matches (drop i t)) (rev [0 ..< Suc n]) of
        [] \<Rightarrow> None
      | i # _ \<Rightarrow> Some (take i t))"

fun re_search :: "string \<Rightarrow> string option" where
  "re_search [] = match_here []"
| "re_search (c # cs) =
     (case match_here (c # cs) of Some g \<Rightarrow> Some g | None \<Rightarrow> re_search cs)"

definition s_name_of :: "string \<Rightarrow> error + string" where
  "s_name_of name = (case re_search name of None \<Rightarrow> Inl AttributeError | Some g \<Rightarrow> Inr g)"

text \<open>The metric identifiers the fixups read and write.\<close>

definition DUP_MARKED :: string where
  "DUP_MARKED = ''Number of duplicate marked reads''"

definition DUP_REMOVED :: string where
  "DUP_REMOVED = ''Number of duplicate marked and mate reads removed''"

definition UNIQUE_READS :: string where
  "UNIQUE_READS = ''Number of unique reads (excl. duplicate marked reads)''"

definition MAPPED_READS :: string where
  "MAPPED_READS = ''Mapped reads''"

definition TOTAL_ALIGNMENTS :: string where
  "TOTAL_ALIGNMENTS = ''Total alignments''"

definition SECONDARY_ALIGNMENTS :: string where
  "SECONDARY_ALIGNMENTS = ''Secondary alignments''"

definition TOTAL_BASES :: string where
  "TOTAL_BASES = ''Total bases''"

definition Q30_BASES_EXCL :: string where
  "Q30_BASES_EXCL = ''Q30 bases (excl. dups & clipped bases)''"

definition MAPPED_BASES_R1 :: string where
  "MAPPED_BASES_R1 = ''Mapped bases R1''"

definition MAPPED_BASES_R2 :: string where
  "MAPPED_BASES_R2 = ''Mapped bases R2''"

definition NA :: pyval where
  "NA = StrV ''NA''"

text \<open>
  Lines 301 to 334, the body of the loop over the lines. The two dictionaries are
  \<^verbatim>\<open>defaultdict(dict)\<close>. A line with fewer than four fields, or with no \<^verbatim>\<open>/\<close> in its
  first field, raises \<^verbatim>\<open>IndexError\<close>.
\<close>

definition store_metric ::
  "records \<Rightarrow> string \<Rightarrow> string \<Rightarrow> pyval \<Rightarrow> pyval option \<Rightarrow> records" where
  "store_metric d entity metric v percentage =
     (let d1 = dd_set d entity metric v in
      case percentage of
        None \<Rightarrow> d1
      | Some p \<Rightarrow> dd_set d1 entity (metric @ '' pct'') p)"

definition parse_line ::
  "(rat \<Rightarrow> pyfloat) \<Rightarrow> string \<Rightarrow> records \<times> records \<Rightarrow> error + records \<times> records" where
  "parse_line rnd line st =
     (let (data_by_readgroup, data_by_phenotype) = st;
          fields = split_on CHR '','' line;
          section_label = hd fields;
          phenotype = lower (hd (split_on CHR '' '' (hd (split_on CHR ''/'' section_label))))
      in
      ebind (nth_err (split_on CHR ''/'' section_label) 1) (\<lambda>analysis.
      ebind (nth_err fields 2) (\<lambda>metric.
      ebind (nth_err fields 3) (\<lambda>raw.
        let v = coerce_value rnd raw;
            percentage =
              (if 4 < length fields then Some (coerce_percentage rnd (fields ! 4)) else None);
            by_phenotype =
              (if analysis = ''ALIGNING SUMMARY''
               then store_metric data_by_phenotype phenotype metric v percentage
               else data_by_phenotype);
            by_readgroup =
              (if analysis = ''ALIGNING PER RG''
               then store_metric data_by_readgroup (fields ! 1) metric v percentage
               else data_by_readgroup)
        in Inr (by_readgroup, by_phenotype)))))"

fun parse_lines ::
  "(rat \<Rightarrow> pyfloat) \<Rightarrow> string list \<Rightarrow> records \<times> records \<Rightarrow> error + records \<times> records" where
  "parse_lines rnd [] st = Inr st"
| "parse_lines rnd (l # ls) st = ebind (parse_line rnd l st) (parse_lines rnd ls)"

text \<open>Lines 339 to 352, the body of the fixup loop on one record. A record is a plain
  \<^verbatim>\<open>dict\<close>: reading a missing key raises \<^verbatim>\<open>KeyError\<close>.\<close>

definition na_to_zero :: "metric_record \<Rightarrow> string \<Rightarrow> error + metric_record" where
  "na_to_zero data k =
     ebind (dict_get data k) (\<lambda>v.
       Inr (if py_eq v NA then AList.update k (IntV 0) data else data))"

definition unique_default :: "metric_record \<Rightarrow> error + metric_record" where
  "unique_default data =
     ebind (dict_get data UNIQUE_READS) (\<lambda>v.
       if py_eq v NA
       then ebind (dict_get data MAPPED_READS) (\<lambda>m. Inr (AList.update UNIQUE_READS m data))
       else Inr data)"

definition percent_of ::
  "(rat \<Rightarrow> pyfloat) \<Rightarrow> metric_record \<Rightarrow> string \<Rightarrow> string \<Rightarrow> error + pyval" where
  "percent_of rnd data part whole =
     ebind (dict_get data part) (\<lambda>a.
     ebind (dict_get data whole) (\<lambda>b.
     ebind (py_truediv rnd a b) (\<lambda>q.
       py_mul rnd q (FloatV (Fin 100)))))"

definition add_pct ::
  "(rat \<Rightarrow> pyfloat) \<Rightarrow> metric_record \<Rightarrow> string \<Rightarrow> string \<Rightarrow> error + metric_record" where
  "add_pct rnd data part whole =
     ebind (percent_of rnd data part whole) (\<lambda>p.
       Inr (AList.update (part @ '' pct'') p data))"

definition alignment_pct :: "(rat \<Rightarrow> pyfloat) \<Rightarrow> metric_record \<Rightarrow> error + metric_record" where
  "alignment_pct rnd data =
     ebind (dict_get data TOTAL_ALIGNMENTS) (\<lambda>t.
     ebind (py_gt_zero t) (\<lambda>pos.
       if pos then add_pct rnd data SECONDARY_ALIGNMENTS TOTAL_ALIGNMENTS else Inr data))"

definition bases_pct :: "(rat \<Rightarrow> pyfloat) \<Rightarrow> metric_record \<Rightarrow> error + metric_record" where
  "bases_pct rnd data =
     ebind (dict_get data TOTAL_BASES) (\<lambda>t.
     ebind (py_gt_zero t) (\<lambda>pos.
       if pos
       then ebind (add_pct rnd data Q30_BASES_EXCL TOTAL_BASES) (\<lambda>d1.
            ebind (add_pct rnd d1 MAPPED_BASES_R1 TOTAL_BASES) (\<lambda>d2.
              add_pct rnd d2 MAPPED_BASES_R2 TOTAL_BASES))
       else Inr data))"

definition fix_record :: "(rat \<Rightarrow> pyfloat) \<Rightarrow> metric_record \<Rightarrow> error + metric_record" where
  "fix_record rnd data =
     ebind (na_to_zero data DUP_MARKED) (\<lambda>d1.
     ebind (na_to_zero d1 DUP_REMOVED) (\<lambda>d2.
     ebind (unique_default d2) (\<lambda>d3.
     ebind (alignment_pct rnd d3) (\<lambda>d4.
       bases_pct rnd d4))))"

text \<open>The loop of line 337 over the records of one dictionary, in its order; the first
  exception ends it.\<close>

fun fix_records :: "(rat \<Rightarrow> pyfloat) \<Rightarrow> records \<Rightarrow> error + records" where
  "fix_records rnd [] = Inr []"
| "fix_records rnd ((entity, data) # rest) =
     ebind (fix_record rnd data) (\<lambda>data'.
     ebind (fix_records rnd rest) (\<lambda>rest'. Inr ((entity, data') # rest')))"

text \<open>The rows of a file before the fixups (lines 295 to 334), and the whole function:
  \<^verbatim>\<open>itertools.chain\<close> visits the read-group records first, then the phenotype records.
  The result carries \<^verbatim>\<open>f['s_name']\<close>, which the function sets on its argument.\<close>

definition parse_rows :: "(rat \<Rightarrow> pyfloat) \<Rightarrow> log_file \<Rightarrow> error + records \<times> records" where
  "parse_rows rnd f = parse_lines rnd (splitlines (f_text f)) ([], [])"

definition parse_mapping_metrics_file ::
  "(rat \<Rightarrow> pyfloat) \<Rightarrow> log_file \<Rightarrow> error + string \<times> records \<times> records" where
  "parse_mapping_metrics_file rnd f =
     ebind (s_name_of (fn f)) (\<lambda>s_name.
     ebind (parse_rows rnd f) (\<lambda>(data_by_readgroup, data_by_phenotype).
     ebind (fix_records rnd data_by_readgroup) (\<lambda>by_readgroup.
     ebind (fix_records rnd data_by_phenotype) (\<lambda>by_phenotype.
       Inr (s_name, by_readgroup, by_phenotype)))))"

section \<open>Configuration and the two static tables\<close>

text \<open>The fields of \<^verbatim>\<open>multiqc.config\<close> that the module reads. The list
  \<^verbatim>\<open>config.report_header_info\<close>, which the module appends to, is threaded through the
  functions as state.\<close>

record config =
  read_count_multiplier :: pyval
  read_count_prefix :: string
  read_count_desc :: string
  base_count_multiplier :: pyval
  base_count_prefix :: string
  base_count_desc :: string

text \<open>Lines 357 to 367.\<close>

definition read_format :: "config \<Rightarrow> string" where
  "read_format cfg =
     (if py_eq (read_count_multiplier cfg) (IntV 1) then ''{:,.0f}'' else ''{:,.1f}'')
     @ ''&nbsp;'' @ read_count_prefix cfg"

definition base_format :: "(rat \<Rightarrow> pyfloat) \<Rightarrow> config \<Rightarrow> string" where
  "base_format rnd cfg =
     (if py_eq (base_count_multiplier cfg) (IntV 1) then ''{:,.0f}''
      else if py_eq (base_count_multiplier cfg) (FloatV (rnd (1 / 1000000000))) then ''{:,.2f}''
      else ''{:,.1f}&nbsp;'')
     @ ''&nbsp;'' @ base_count_prefix cfg"

text \<open>\<^verbatim>\<open>MAPPING_METRICS\<close>, lines 369 to 441: identifier, title, what to show (\<^verbatim>\<open>'#'\<close>,
  \<^verbatim>\<open>'%'\<close> or \<^verbatim>\<open>None\<close>), unit, whether the metric is in the beeswarm plot, description.\<close>

type_synonym metric_descriptor =
  "string \<times> string \<times> string option \<times> string option \<times> bool \<times> string"

definition MAPPING_METRICS :: "metric_descriptor list" where
  "MAPPING_METRICS =
    [(''Total input reads'', ''Reads'', Some ''#'', Some ''reads'', False,
      ''Total number of input reads for this sample (or total number of reads in all input read groups combined), {}''),
     (''Total reads in RG'', ''Reads'', None, Some ''reads'', True,
      ''Total number of reads in this RG, {}''),
     (''Reads with mate sequenced'', ''Reads with mate'', None, Some ''reads'', True,
      ''Number of reads with a mate sequenced, {}''),
     (''Reads without mate sequenced'', ''Reads w/o mate'', None, Some ''reads'', False,
      ''Number of reads without a mate sequenced, {}''),
     (''QC-failed reads'', ''QC-fail'', None, Some ''reads'', True,
      ''Number of reads not passing platform/vendor quality checks (SAM flag 0x200), {}''),
     (''Mapped reads'', ''Map'', Some ''%'', Some ''reads'', True,
      ''Number of mapped reads, {}''),
     (''Mapped reads R1'', ''Map R1'', None, Some ''reads'', False,
      ''Number of mapped reads R1, {}''),
     (''Mapped reads R2'', ''Map R2'', None, Some ''reads'', False,
      ''Number of mapped reads R2, {}''),
     (''Reads with MAPQ [40:inf)'', ''MQ>=40'', None, Some ''reads'', True,
      ''Number of reads with MAPQ [40:inf), {}''),
     (''Number of duplicate marked reads'', ''Dup'', Some ''%'', Some ''reads'', False,
      ''Number of duplicate marked reads as a result of the --enable-duplicatemarking option being used, {}''),
     (''Number of duplicate marked and mate reads removed'', ''Dup with mates removed'', None, Some ''reads'', False,
      ''Number of reads marked as duplicates, along with any mate reads, that are removed when the --remove-duplicates option is used, {}''),
     (''Number of unique reads (excl. duplicate marked reads)'', ''Uniq'', None, Some ''reads'', True,
      ''Number of unique reads (all reads minus duplicate marked reads), {}''),
     (''Number of unique & mapped reads (excl. duplicate marked reads)'', ''Uniq map'', None, Some ''reads'', True,
      ''Number of unique & mapped reads (mapped reads minus duplicate marked reads), {}''),
     (''Unmapped reads'', ''Unmap'', None, Some ''reads'', False,
      ''Number of unmapped reads, {}''),
     (''Paired reads (itself & mate mapped)'', ''Self & mate mapped'', None, Some ''reads'', True,
      ''Number of reads mapped in pairs (itself & mate mapped), {}''),
     (''Properly paired reads'', ''Prop pair'', Some ''%'', Some ''reads'', True,
      ''Number of properly paired reads, {} (both reads in pair are mapped and fall within an acceptable range from each other based on the estimated insert length distribution)''),
     (''Not properly paired reads (discordant)'', ''Discord'', None, Some ''reads'', True,
      ''Number of discordant reads: paired reads minus properly paired reads , {}''),
     (''Singleton reads (itself mapped; mate unmapped)'', ''Singleton'', None, Some ''reads'', True,
      ''Number of singleton reads: itself mapped; mate unmapped, {}''),
     (''Paired reads mapped to different chromosomes'', ''Mate map to diff chrom'', None, Some ''reads'', True,
      ''Number of paired reads with a mate mapped to a different chromosome, {}''),
     (''Paired reads mapped to different chromosomes (MAPQ>=10)'', ''Mate diff chrom, MQ>=10'', None, Some ''reads'', True,
      ''Number of paired reads, mapped with MAPQ>=10 and with a mate mapped to a different chromosome, {}''),
     (''Reads with indel R1'', ''Reads with indel R1'', None, Some ''reads'', False,
      ''Number of R1 reads containing at least 1 indel, {}''),
     (''Reads with indel R2'', ''Reads with indel R2'', None, Some ''reads'', False,
      ''Number of R2 reads containing at least 1 indel, {}''),
     (''Total alignments'', ''Alignments'', None, Some ''reads'', True,
      ''Total number of alignments with MQ > 0, {}''),
     (''Secondary alignments'', ''Second'ry'', Some ''%'', Some ''reads'', True,
      ''Number of secondary alignments, {}. Secondary alignment occurs when a given read could align reasonably well to more than one place. One of the possible reported alignments is termed \"primary\" and the others will be marked as \"secondary\".''),
     (''Supplementary (chimeric) alignments'', ''Suppl'ry'', None, Some ''reads'', True,
      ''Number of supplementary (chimeric) alignments, {}. A chimeric read is split over multiple loci (possibly due to structural variants). One alignment is referred to as the representative alignment, the other are supplementary''),
     (''Estimated read length'', ''Read len'', Some ''#'', Some ''len'', False,
      ''Estimated read length. Total number of input bases divided by the number of reads''),
     (''Insert length: mean'', ''Avg IS'', None, Some ''len'', False,
      ''Insert length: mean''),
     (''Insert length: median'', ''Med IS'', Some ''#'', Some ''len'', False,
      ''Insert length: median''),
     (''Insert length: standard deviation'', ''IS std'', None, Some ''len'', False,
      ''Insert length: standard deviation''),
     (''Average sequenced coverage over genome'', ''Cov'', Some ''#'', Some ''x'', True,
      ''Average sequenced coverage over genome''),
     (''Total bases'', ''Bases'', Some ''#'', Some ''bases'', True,
      ''Total number of bases sequenced, {}''),
     (''Total bases R1'', ''Bases R1'', None, Some ''bases'', False,
      ''Total number of bases sequenced on R1 reads, {}''),
     (''Total bases R2'', ''Bases R2'', None, Some ''bases'', False,
      ''Total number of bases sequenced on R2 reads, {}''),
     (''Mapped bases R1'', ''Mapped bases R1'', None, Some ''bases'', False,
      ''Number of mapped bases on R1 reads, {}''),
     (''Mapped bases R2'', ''Mapped bases R2'', None, Some ''bases'', False,
      ''Number of mapped bases on R2 reads, {}''),
     (''Soft-clipped bases R1'', ''Soft-clip bases R1'', None, Some ''bases'', False,
      ''Number of soft-clipped bases on R1 reads, {}''),
     (''Soft-clipped bases R2'', ''Soft-clip bases R2'', None, Some ''bases'', False,
      ''Number of soft-clipped bases on R2 reads, {}''),
     (''Mismatched bases R1'', ''MM bases R1'', None, Some ''bases'', False,
      ''Number of mismatched bases on R1, {}, which is the sum of SNP count and indel lengths. It does not count anything within soft clipping, or RNA introns. It also does not count a mismatch if either the reference base or read base is N''),
     (''Mismatched bases R2'', ''MM bases R2'', None, Some ''bases'', False,
      ''Number of mismatched bases on R2, {}, which is the sum of SNP count and indel lengths. It does not count anything within soft clipping, or RNA introns. It also does not count a mismatch if either the reference base or read base is N''),
     (''Mismatched bases R1 (excl. indels)'', ''MM bases R1 excl indels'', None, Some ''bases'', False,
      ''Number of mismatched bases on R1, {}. The indels lengts are ignored. It does not count anything within soft clipping, or RNA introns. It also does not count a mismatch if either the reference base or read base is N''),
     (''Mismatched bases R2 (excl. indels)'', ''MM bases R2 excl indels'', None, Some ''bases'', False,
      ''Number of mismatched bases on R2, {}. The indels lengts are ignored. It does not count anything within soft clipping, or RNA introns. It also does not count a mismatch if either the reference base or read base is N''),
     (''Q30 bases'', ''Q30'', Some ''%'', Some ''bases'', True,
      ''Number of bases with BQ >= 30, {}''),
     (''Q30 bases R1'', ''Q30 R1'', None, Some ''bases'', False,
      ''Number of bases on R1 reads with BQ >= 30, {}''),
     (''Q30 bases R2'', ''Q30 R2'', None, Some ''bases'', False,
      ''Number of bases on R2 reads with BQ >= 30, {}''),
     (''Q30 bases (excl. dups & clipped bases)'', ''Q30 excl dup & clipped'', None, Some ''bases'', True,
      ''Number of non-clipped bases with BQ >= 30 on non-duplicate reads, {}''),
     (''Bases in reference genome'', ''Bases in ref. genome'', Some ''#'', Some ''bases'', False,
      ''Bases in reference genome''),
     (''Bases in target bed [% of genome]'', ''Bases in target bed'', Some ''#'', Some ''%'', False,
      ''Bases in target bed [% of genome]''),
     (''Provided sex chromosome ploidy'', ''Provided sex chrom ploidy'', None, None, False,
      ''Provided sex chromosome ploidy''),
     (''DRAGEN mapping rate [mil. reads/second]'', ''DRAGEN map rate'', None, None, False,
      ''DRAGEN mapping rate [mil. reads/second]'')]"

text \<open>\<^verbatim>\<open>GENERAL_METRICS\<close>, lines 443 to 449: identifier, title, format, and whether the
  entry has the modifier \<^verbatim>\<open>lambda v: v * config.base_count_multiplier\<close>.\<close>

definition GENERAL_METRICS ::
  "(rat \<Rightarrow> pyfloat) \<Rightarrow> config \<Rightarrow> (string \<times> string \<times> string \<times> bool) list" where
  "GENERAL_METRICS rnd cfg =
    [(''Bases in reference genome'', ''Bases in ref. genome:'', base_format rnd cfg, True),
     (''Bases in target bed [% of genome]'', ''Bases in target bed:'', ''{} % of genome'', False),
     (''Provided sex chromosome ploidy'', ''Prov. sex chrom ploidy:'', ''{}'', False),
     (''DRAGEN mapping rate [mil. reads/second]'', ''DRAGEN mapping rate:'',
      ''{:,.2f} [mil. reads/second]'', False)]"

definition general_ids :: "string list" where
  "general_ids =
    [''Bases in reference genome'', ''Bases in target bed [% of genome]'',
     ''Provided sex chromosome ploidy'', ''DRAGEN mapping rate [mil. reads/second]'']"

section \<open>The promoter: \<^verbatim>\<open>maybe_add_general_metrics\<close>\<close>

text \<open>Lines 145 to 148: the values of the general metrics, by metric and then by
  sample (Python 3: the variable of the list comprehension does not leak).\<close>

fun collect_record ::
  "string \<Rightarrow> metric_record \<Rightarrow> pyval pydict pydict \<Rightarrow> pyval pydict pydict" where
  "collect_record sname [] g = g"
| "collect_record sname ((metric, v) # rest) g =
     collect_record sname rest
       (if metric \<in> set general_ids then dd_set g metric sname v else g)"

fun collect_general :: "records \<Rightarrow> pyval pydict pydict \<Rightarrow> pyval pydict pydict" where
  "collect_general [] g = g"
| "collect_general ((sname, data) # rest) g = collect_general rest (collect_record sname data g)"

text \<open>\<^verbatim>\<open>set(values)\<close>: an element is added unless an equal one is there. The values of one
  metric in different samples are different objects, so only \<^verbatim>\<open>==\<close> decides.\<close>

definition set_add :: "pyval list \<Rightarrow> pyval \<Rightarrow> pyval list" where
  "set_add S x = (if list_ex (\<lambda>y. py_eq y x) S then S else S @ [x])"

definition py_set :: "pyval list \<Rightarrow> pyval list" where
  "py_set vals = foldl set_add [] vals"

text \<open>Lines 164 and 165: \<^verbatim>\<open>del data[metric]\<close> for every sample, in order; \<^verbatim>\<open>KeyError\<close>
  at the first sample that has no such key.\<close>

fun del_metric :: "string \<Rightarrow> records \<Rightarrow> error + records" where
  "del_metric metric [] = Inr []"
| "del_metric metric ((sname, data) # rest) =
     ebind (dict_del data metric) (\<lambda>data'.
     ebind (del_metric metric rest) (\<lambda>rest'. Inr ((sname, data') # rest')))"

text \<open>
  Lines 151 to 165, the body of the loop over \<^verbatim>\<open>GENERAL_METRICS\<close>. The state is the
  per-sample data and \<^verbatim>\<open>config.report_header_info\<close> (\<open>None\<close> until the first use).
  \<open>str_format fmt v\<close> stands for Python's \<^verbatim>\<open>fmt.format(v)\<close>, which can raise.
\<close>

type_synonym header_info = "(string \<times> string) list option"

definition promote_metric ::
  "(rat \<Rightarrow> pyfloat) \<Rightarrow> (string \<Rightarrow> pyval \<Rightarrow> error + string) \<Rightarrow> config \<Rightarrow> pyval pydict pydict \<Rightarrow>
   string \<times> string \<times> string \<times> bool \<Rightarrow> records \<times> header_info \<Rightarrow> error + records \<times> header_info" where
  "promote_metric rnd str_format cfg g gm st =
     (let (metric, title, fmt, modify) = gm;
          (data_by_sample, info) = st;
          vals_by_sample = dd_get g metric;
          distinct_vals = py_set (map snd vals_by_sample)
      in
      if length distinct_vals = 1 then
        (let info1 = (case info of None \<Rightarrow> [] | Some l \<Rightarrow> l);
             v = hd distinct_vals
         in
         ebind (if py_ne v NA
                then ebind (if modify then py_mul rnd v (base_count_multiplier cfg) else Inr v)
                       (\<lambda>v'. ebind (str_format fmt v') (\<lambda>s. Inr (info1 @ [(title, s)])))
                else Inr info1) (\<lambda>info2.
         ebind (del_metric metric data_by_sample) (\<lambda>data'.
           Inr (data', Some info2))))
      else Inr (data_by_sample, info))"

fun promote_metrics ::
  "(rat \<Rightarrow> pyfloat) \<Rightarrow> (string \<Rightarrow> pyval \<Rightarrow> error + string) \<Rightarrow> config \<Rightarrow> pyval pydict pydict \<Rightarrow>
   (string \<times> string \<times> string \<times> bool) list \<Rightarrow> records \<times> header_info \<Rightarrow> error + records \<times> header_info" where
  "promote_metrics rnd str_format cfg g [] st = Inr st"
| "promote_metrics rnd str_format cfg g (gm # gms) st =
     ebind (promote_metric rnd str_format cfg g gm st) (promote_metrics rnd str_format cfg g gms)"

definition maybe_add_general_metrics ::
  "(rat \<Rightarrow> pyfloat) \<Rightarrow> (string \<Rightarrow> pyval \<Rightarrow> error + string) \<Rightarrow> config \<Rightarrow>
   records \<times> header_info \<Rightarrow> error + records \<times> header_info" where
  "maybe_add_general_metrics rnd str_format cfg st =
     promote_metrics rnd str_format cfg (collect_general (fst st) [])
       (GENERAL_METRICS rnd cfg) st"

section \<open>The metadata builder: \<^verbatim>\<open>make_mapping_stats_headers\<close>\<close>

text \<open>A column descriptor is a \<^verbatim>\<open>dict\<close> with a fixed choice of keys; a key that is not
  set is \<open>None\<close>. The value under \<^verbatim>\<open>modify\<close> is a function that multiplies by a factor
  of the configuration: it is recorded by that factor.\<close>

record column =
  col_title :: string
  col_description :: string
  col_min :: int
  col_scale :: "string option"
  col_max :: "int option"
  col_suffix :: "string option"
  col_hidden :: "bool option"
  col_modify :: "pyval option"
  col_shared_key :: "string option"
  col_format :: "string option"

text \<open>Lines 459 to 515, the body of the loop over \<^verbatim>\<open>MAPPING_METRICS\<close>. The state is the
  two ordered dictionaries. \<open>metric_names\<close> is a \<^verbatim>\<open>set\<close>, read by membership only.\<close>

definition base_column :: "string \<Rightarrow> string option \<Rightarrow> string \<Rightarrow> column" where
  "base_column title unit descr =
     (let col = \<lparr> col_title = title, col_description = descr, col_min = 0,
                   col_scale = None, col_max = None, col_suffix = None, col_hidden = None,
                   col_modify = None, col_shared_key = None, col_format = None \<rparr>;
          col = (if unit = Some ''reads'' then col\<lparr> col_scale := Some ''RdYlGn'' \<rparr> else col);
          col = (if unit = Some ''bases'' then col\<lparr> col_scale := Some ''RdBu'' \<rparr> else col);
          col = (if unit = Some ''len'' then col\<lparr> col_scale := Some ''BrBG'' \<rparr> else col);
          col = (if unit = Some ''x'' then col\<lparr> col_scale := Some ''PiYG'' \<rparr> else col)
      in col)"

definition pct_column :: "column \<Rightarrow> string option \<Rightarrow> string \<Rightarrow> column" where
  "pct_column col showing descr =
     col\<lparr> col_description := replace (replace descr '', {}'' []) ''Number of '' ''% of '',
          col_max := Some 100,
          col_suffix := Some ''%'',
          col_hidden := Some (showing \<noteq> Some ''%'') \<rparr>"

definition count_column ::
  "(rat \<Rightarrow> pyfloat) \<Rightarrow> config \<Rightarrow> column \<Rightarrow> string option \<Rightarrow> string option \<Rightarrow> column" where
  "count_column rnd cfg col0 showing unit =
     (let col = col0\<lparr> col_hidden := Some (showing \<noteq> Some ''#'') \<rparr>;
          col = (if unit = Some ''reads''
                 then col\<lparr> col_description := format_field (col_description col) (read_count_desc cfg),
                           col_modify := Some (read_count_multiplier cfg),
                           col_shared_key := Some ''read_count'',
                           col_format := Some (read_format cfg) \<rparr>
                 else col);
          col = (if unit = Some ''bases''
                 then col\<lparr> col_description := format_field (col_description col) (base_count_desc cfg),
                           col_modify := Some (base_count_multiplier cfg),
                           col_shared_key := Some ''base_count'',
                           col_format := Some (base_format rnd cfg) \<rparr>
                 else col);
          col = (if unit = Some ''len''
                 then col\<lparr> col_suffix := Some '' bp'', col_format := Some ''{:,.0f}'' \<rparr> else col);
          col = (if unit = Some ''x''
                 then col\<lparr> col_suffix := Some '' x'', col_format := Some ''{:,.1f}'' \<rparr> else col);
          col = (if unit = Some ''%''
                 then col\<lparr> col_suffix := Some '' %'', col_format := Some ''{:,.1f}'' \<rparr> else col)
      in col)"

definition beeswarm_suffix :: "config \<Rightarrow> string option \<Rightarrow> string" where
  "beeswarm_suffix cfg unit =
     (let suffix = [];
          suffix = (if unit = Some ''reads'' then '' '' @ read_count_prefix cfg else suffix);
          suffix = (if unit = Some ''bases'' then '' '' @ base_count_prefix cfg else suffix)
      in suffix)"

definition header_step ::
  "(rat \<Rightarrow> pyfloat) \<Rightarrow> config \<Rightarrow> string list \<Rightarrow> metric_descriptor \<Rightarrow>
   column pydict \<times> column pydict \<Rightarrow> column pydict \<times> column pydict" where
  "header_step rnd cfg metric_names m st =
     (let (id_in_data, title, showing, unit, show_in_beeswarm, descr) = m;
          (stats_headers, beeswarm_keys) = st;
          col0 = base_column title unit descr;
          stats_headers =
            (if id_in_data @ '' pct'' \<in> set metric_names
             then AList.update (id_in_data @ '' pct'') (pct_column col0 showing descr) stats_headers
             else stats_headers);
          col = count_column rnd cfg col0 showing unit;
          stats_headers = AList.update id_in_data col stats_headers;
          beeswarm_keys =
            (if show_in_beeswarm
             then AList.update id_in_data (col\<lparr> col_suffix := Some (beeswarm_suffix cfg unit) \<rparr>)
                    beeswarm_keys
             else beeswarm_keys)
      in (stats_headers, beeswarm_keys))"

definition headers_over ::
  "(rat \<Rightarrow> pyfloat) \<Rightarrow> config \<Rightarrow> metric_descriptor list \<Rightarrow> string list \<Rightarrow>
   column pydict \<times> column pydict" where
  "headers_over rnd cfg catalog metric_names =
     foldl (\<lambda>st m. header_step rnd cfg metric_names m st) ([], []) catalog"

definition make_mapping_stats_headers ::
  "(rat \<Rightarrow> pyfloat) \<Rightarrow> config \<Rightarrow> string list \<Rightarrow> column pydict \<times> column pydict" where
  "make_mapping_stats_headers rnd cfg metric_names =
     headers_over rnd cfg MAPPING_METRICS metric_names"

section \<open>The chart projections\<close>

datatype log_level = Debug | Info | Warning

type_synonym log = "(log_level \<times> string) list"

definition TOTAL_READS_IN_RG :: string where
  "TOTAL_READS_IN_RG = ''Total reads in RG''"

definition UNIQUE_MAPPED :: string where
  "UNIQUE_MAPPED = ''Number of unique & mapped reads (excl. duplicate marked reads)''"

definition UNMAPPED :: string where
  "UNMAPPED = ''Unmapped reads''"

definition DISCORDANT :: string where
  "DISCORDANT = ''Not properly paired reads (discordant)''"

definition PROPERLY_PAIRED :: string where
  "PROPERLY_PAIRED = ''Properly paired reads''"

definition SINGLETON :: string where
  "SINGLETON = ''Singleton reads (itself mapped; mate unmapped)''"

text \<open>The left-to-right sum \<^verbatim>\<open>data[k1] + data[k2] + ...\<close> of a non-empty list of keys:
  each key is read when its turn comes.\<close>

fun sum_from :: "(rat \<Rightarrow> pyfloat) \<Rightarrow> metric_record \<Rightarrow> pyval \<Rightarrow> string list \<Rightarrow> error + pyval" where
  "sum_from rnd data acc [] = Inr acc"
| "sum_from rnd data acc (k # ks) =
     ebind (dict_get data k) (\<lambda>v.
     ebind (py_add rnd acc v) (\<lambda>acc'. sum_from rnd data acc' ks))"

definition sum_keys :: "(rat \<Rightarrow> pyfloat) \<Rightarrow> metric_record \<Rightarrow> string list \<Rightarrow> error + pyval" where
  "sum_keys rnd data ks =
     (case ks of
        [] \<Rightarrow> Inl IndexError
      | k # rest \<Rightarrow> ebind (dict_get data k) (\<lambda>v. sum_from rnd data v rest))"

text \<open>The condition of lines 89 to 91 and of lines 116 to 118: the sum of the parts
  \<^verbatim>\<open>!=\<close> the total.\<close>

definition mismatch ::
  "(rat \<Rightarrow> pyfloat) \<Rightarrow> string list \<Rightarrow> metric_record \<Rightarrow> error + bool" where
  "mismatch rnd parts data =
     ebind (sum_keys rnd data parts) (\<lambda>s.
     ebind (dict_get data TOTAL_READS_IN_RG) (\<lambda>t. Inr (py_ne s t)))"

text \<open>The loop shared by the two charts: the state is \<^verbatim>\<open>chart_data\<close> and the log.\<close>

fun chart_loop ::
  "(rat \<Rightarrow> pyfloat) \<Rightarrow> string list \<Rightarrow> string \<Rightarrow> records \<Rightarrow> records \<times> log \<Rightarrow>
   error + records \<times> log" where
  "chart_loop rnd parts msg [] st = Inr st"
| "chart_loop rnd parts msg ((sample_id, data) # rest) (chart_data, lg) =
     ebind (mismatch rnd parts data) (\<lambda>bad.
       chart_loop rnd parts msg rest
         (if bad then (chart_data, lg @ [(Warning, msg @ sample_id)])
          else (AList.update sample_id data chart_data, lg)))"

definition dup_parts :: "string list" where
  "dup_parts = [UNIQUE_MAPPED, DUP_MARKED, UNMAPPED]"

definition pair_parts :: "string list" where
  "pair_parts = [DISCORDANT, PROPERLY_PAIRED, SINGLETON, UNMAPPED]"

definition dup_warning :: string where
  "dup_warning = ''sum of unique/duplicate/unmapped reads not matching total, ''
     @ ''skipping mapping/duplicates percentages plot for: ''"

definition pair_warning :: string where
  "pair_warning = ''sum of unpaired/discordant/proppaired/unmapped reads not matching total, ''
     @ ''skipping mapping/paired percentages plot for: ''"

text \<open>Lines 86 to 95 and 113 to 122. The result is the \<^verbatim>\<open>chart_data\<close> handed to
  \<^verbatim>\<open>bargraph.plot\<close>, and the warnings logged.\<close>

definition map_dup_read_chart :: "(rat \<Rightarrow> pyfloat) \<Rightarrow> records \<Rightarrow> error + records \<times> log" where
  "map_dup_read_chart rnd data_by_sample =
     chart_loop rnd dup_parts dup_warning data_by_sample ([], [])"

definition map_pair_read_chart :: "(rat \<Rightarrow> pyfloat) \<Rightarrow> records \<Rightarrow> error + records \<times> log" where
  "map_pair_read_chart rnd data_by_sample =
     chart_loop rnd pair_parts pair_warning data_by_sample ([], [])"

section \<open>The aggregator: \<^verbatim>\<open>parse_mapping_metrics\<close>\<close>

text \<open>
  Lines 21 to 32, the loop over the files that \<^verbatim>\<open>find_log_files\<close> yields. The state is
  the two dictionaries keyed by output prefix, the log, and the files handed to
  \<^verbatim>\<open>add_data_source\<close>. A prefix seen again overwrites the entries of the earlier file.
\<close>

type_synonym files_state = "records pydict \<times> records pydict \<times> log \<times> string list"

definition duplicate_rg_log :: "string \<Rightarrow> records \<Rightarrow> records pydict \<Rightarrow> log" where
  "duplicate_rg_log s_name data_by_readgroup data_by_rg_by_sample =
     map (\<lambda>(rg, data).
            (Debug, ''Duplicate read group name '' @ rg @ '' found for output prefix ''
                    @ s_name @ ''! Overwriting''))
         (filter (\<lambda>(rg, data). list_ex (\<lambda>(sn, d_rg). dict_has d_rg rg) data_by_rg_by_sample)
                 data_by_readgroup)"

fun files_loop :: "(rat \<Rightarrow> pyfloat) \<Rightarrow> log_file list \<Rightarrow> files_state \<Rightarrow> error + files_state" where
  "files_loop rnd [] st = Inr st"
| "files_loop rnd (f # fs) (data_by_rg_by_sample, data_by_phenotype_by_sample, lg, sources) =
     ebind (parse_mapping_metrics_file rnd f) (\<lambda>(s_name, data_by_readgroup, data_by_phenotype).
       let seen = dict_has data_by_rg_by_sample s_name;
           lg1 = (if seen
                  then lg @ [(Debug, ''Duplicate Dragen output prefix found! Overwriting: '' @ s_name)]
                  else lg);
           sources1 = (if seen then sources @ [fn f] else sources);
           by_phenotype = AList.update s_name data_by_phenotype data_by_phenotype_by_sample;
           lg2 = lg1 @ duplicate_rg_log s_name data_by_readgroup data_by_rg_by_sample;
           by_rg = AList.update s_name data_by_readgroup data_by_rg_by_sample
       in files_loop rnd fs (by_rg, by_phenotype, lg2, sources1))"

text \<open>Modelled from the spec: \<^verbatim>\<open>ignore_samples\<close> is a method of the base module, which is
  not among the source files. The spec says that entities whose name matches a
  caller-supplied exclusion set are dropped; \<open>ignored\<close> is that set, as a predicate.\<close>

definition ignore_samples :: "(string \<Rightarrow> bool) \<Rightarrow> 'v pydict \<Rightarrow> 'v pydict" where
  "ignore_samples ignored d = filter (\<lambda>(k, v). \<not> ignored k) d"

text \<open>Lines 42 to 48: the sample flattening.\<close>

definition new_sn :: "string \<Rightarrow> string \<Rightarrow> string" where
  "new_sn sn phenotype = (if phenotype = ''normal'' then sn @ '' normal'' else sn)"

fun flatten_doc :: "string \<Rightarrow> records \<Rightarrow> records \<Rightarrow> records" where
  "flatten_doc sn [] data_by_sample = data_by_sample"
| "flatten_doc sn ((phenotype, data) # rest) data_by_sample =
     flatten_doc sn rest (AList.update (new_sn sn phenotype) data data_by_sample)"

fun flatten_samples :: "records pydict \<Rightarrow> records \<Rightarrow> records" where
  "flatten_samples [] data_by_sample = data_by_sample"
| "flatten_samples ((sn, by_phenotype) # rest) data_by_sample =
     flatten_samples rest (flatten_doc sn by_phenotype data_by_sample)"

text \<open>Lines 55 to 60: the merge of the read groups.\<close>

fun merge_doc :: "string \<Rightarrow> records \<Rightarrow> records \<Rightarrow> records" where
  "merge_doc sname [] data_by_rg = data_by_rg"
| "merge_doc sname ((rg, d) # rest) data_by_rg =
     merge_doc sname rest
       (AList.update (if dict_has data_by_rg rg then rg @ '' ('' @ sname @ '')'' else rg) d data_by_rg)"

fun merge_read_groups :: "records pydict \<Rightarrow> records \<Rightarrow> records" where
  "merge_read_groups [] data_by_rg = data_by_rg"
| "merge_read_groups ((sname, rgs) # rest) data_by_rg =
     merge_read_groups rest (merge_doc sname rgs data_by_rg)"

text \<open>
  Lines 63 to 67. The \<^verbatim>\<open>for\<close> statement binds the names \<^verbatim>\<open>sn\<close> and \<^verbatim>\<open>data_by_rg\<close> at each
  round, and \<^verbatim>\<open>data_by_rg\<close> is also the name of the merged dictionary of line 55: the
  state of the loop is the set of names and the value of the variable \<^verbatim>\<open>data_by_rg\<close>.
\<close>

definition names_add :: "string list \<Rightarrow> string \<Rightarrow> string list" where
  "names_add names m = (if m \<in> set names then names else names @ [m])"

definition add_names :: "records \<Rightarrow> string list \<Rightarrow> string list" where
  "add_names data_by_rg names =
     foldl (\<lambda>ns (rg, data). foldl names_add ns (map fst data)) names data_by_rg"

fun names_loop :: "records pydict \<Rightarrow> string list \<times> records \<Rightarrow> string list \<times> records" where
  "names_loop [] st = st"
| "names_loop ((sn, rgs) # rest) (all_metric_names, data_by_rg) =
     names_loop rest (add_names rgs all_metric_names, rgs)"

text \<open>
  What a run hands to its collaborators: the arguments of \<^verbatim>\<open>general_stats_addcols\<close>,
  the \<^verbatim>\<open>chart_data\<close> of the two bar graphs, the arguments of \<^verbatim>\<open>beeswarm.plot\<close>,
  \<^verbatim>\<open>config.report_header_info\<close>, the log and the data sources. The field
  \<open>rep_merged\<close> keeps the dictionary that lines 55 to 60 build.
\<close>

record report =
  rep_stats_data :: records
  rep_stats_headers :: "column pydict"
  rep_dup_chart :: records
  rep_pair_chart :: records
  rep_beeswarm_data :: records
  rep_beeswarm_keys :: "column pydict"
  rep_header_info :: header_info
  rep_log :: log
  rep_sources :: "string list"
  rep_merged :: records

text \<open>The method, lines 17 to 84. \<open>None\<close> is the early \<^verbatim>\<open>return\<close> of line 38.\<close>

definition parse_mapping_metrics ::
  "(rat \<Rightarrow> pyfloat) \<Rightarrow> (string \<Rightarrow> pyval \<Rightarrow> error + string) \<Rightarrow> config \<Rightarrow> (string \<Rightarrow> bool) \<Rightarrow>
   header_info \<Rightarrow> log_file list \<Rightarrow> error + report option" where
  "parse_mapping_metrics rnd str_format cfg ignored info0 files =
     ebind (files_loop rnd files ([], [], [], [])) (\<lambda>(by_rg, by_phenotype, lg, sources).
       let data_by_rg_by_sample = ignore_samples ignored by_rg;
           data_by_phenotype_by_sample = ignore_samples ignored by_phenotype
       in
       if data_by_rg_by_sample = [] \<and> data_by_phenotype_by_sample = [] then Inr None
       else
         (let lg1 = lg @ [(Info, ''Found mapping metrics for ''
                                 @ str_nat (length data_by_rg_by_sample)
                                 @ '' Dragen output prefixes'')];
              data_by_sample = flatten_samples data_by_phenotype_by_sample []
          in
          ebind (maybe_add_general_metrics rnd str_format cfg (data_by_sample, info0))
            (\<lambda>(data_by_sample, info).
          let merged = merge_read_groups data_by_rg_by_sample [];
              (all_metric_names, data_by_rg) = names_loop data_by_rg_by_sample ([], merged);
              (headers, beeswarm_keys) = make_mapping_stats_headers rnd cfg all_metric_names
          in
          ebind (map_dup_read_chart rnd data_by_rg) (\<lambda>(dup_chart, lg_dup).
          ebind (map_pair_read_chart rnd data_by_rg) (\<lambda>(pair_chart, lg_pair).
            Inr (Some \<lparr> rep_stats_data = data_by_sample,
                        rep_stats_headers = headers,
                        rep_dup_chart = dup_chart,
                        rep_pair_chart = pair_chart,
                        rep_beeswarm_data = data_by_rg,
                        rep_beeswarm_keys = beeswarm_keys,
                        rep_header_info = info,
                        rep_log = lg1 @ lg_dup @ lg_pair,
                        rep_sources = sources,
                        rep_merged = merged \<rparr>))))))"

section \<open>Example inputs\<close>

text \<open>A configuration, and a stand-in for \<^verbatim>\<open>str.format\<close> that never raises: the examples
  below do not depend on how a number is printed.\<close>

definition example_config :: config where
  "example_config =
     \<lparr> read_count_multiplier = FloatV (Fin (1 / 1000000)), read_count_prefix = ''M'',
       read_count_desc = ''millions'',
       base_count_multiplier = FloatV (Fin (1 / 1000000)), base_count_prefix = ''Mb'',
       base_count_desc = ''millions'' \<rparr>"

definition example_format :: "string \<Rightarrow> pyval \<Rightarrow> error + string" where
  "example_format fmt v = Inr fmt"

text \<open>Example documents are written as lists of rows: \<open>csv_rows\<close> gives the text of the
  rows of one section and one entity, each row ended by a line feed.\<close>

definition csv_rows :: "string \<Rightarrow> string \<Rightarrow> (string \<times> string) list \<Rightarrow> string" where
  "csv_rows section_label entity kvs =
     concat (map (\<lambda>(k, v). section_label @ '','' @ entity @ '','' @ k @ '','' @ v @ [CHR 0x0A]) kvs)"

definition ints :: "(string \<times> int) list \<Rightarrow> metric_record" where
  "ints kvs = map (\<lambda>(k, v). (k, IntV v)) kvs"

text \<open>Two documents \<^verbatim>\<open>A.mapping_metrics.csv\<close> and \<^verbatim>\<open>B.mapping_metrics.csv\<close>, each with a
  summary section and one read group called \<^verbatim>\<open>RG1\<close>, whose counts reconcile in both
  charts; and a third file with the text of the second under the name of the first.\<close>

definition example_text_A :: string where
  "example_text_A =
     csv_rows ''TUMOR MAPPING/ALIGNING SUMMARY'' []
       [(DUP_MARKED, ''2''), (DUP_REMOVED, ''0''), (UNIQUE_READS, ''8''),
        (TOTAL_ALIGNMENTS, ''0''), (TOTAL_BASES, ''0'')]
     @ csv_rows ''TUMOR MAPPING/ALIGNING PER RG'' ''RG1''
       [(DUP_MARKED, ''2''), (DUP_REMOVED, ''0''), (UNIQUE_READS, ''8''),
        (TOTAL_ALIGNMENTS, ''0''), (TOTAL_BASES, ''0''), (UNIQUE_MAPPED, ''7''),
        (UNMAPPED, ''1''), (TOTAL_READS_IN_RG, ''10''), (DISCORDANT, ''1''),
        (PROPERLY_PAIRED, ''8''), (SINGLETON, ''0'')]"

definition example_text_B :: string where
  "example_text_B =
     csv_rows ''TUMOR MAPPING/ALIGNING SUMMARY'' []
       [(DUP_MARKED, ''4''), (DUP_REMOVED, ''0''), (UNIQUE_READS, ''16''),
        (TOTAL_ALIGNMENTS, ''0''), (TOTAL_BASES, ''0'')]
     @ csv_rows ''TUMOR MAPPING/ALIGNING PER RG'' ''RG1''
       [(DUP_MARKED, ''4''), (DUP_REMOVED, ''0''), (UNIQUE_READS, ''16''),
        (TOTAL_ALIGNMENTS, ''0''), (TOTAL_BASES, ''0''), (UNIQUE_MAPPED, ''14''),
        (UNMAPPED, ''2''), (TOTAL_READS_IN_RG, ''20''), (DISCORDANT, ''2''),
        (PROPERLY_PAIRED, ''16''), (SINGLETON, ''0'')]"

definition example_summary_A :: metric_record where
  "example_summary_A =
     ints [(DUP_MARKED, 2), (DUP_REMOVED, 0), (UNIQUE_READS, 8),
           (TOTAL_ALIGNMENTS, 0), (TOTAL_BASES, 0)]"

definition example_rg_A :: metric_record where
  "example_rg_A =
     ints [(DUP_MARKED, 2), (DUP_REMOVED, 0), (UNIQUE_READS, 8),
           (TOTAL_ALIGNMENTS, 0), (TOTAL_BASES, 0), (UNIQUE_MAPPED, 7),
           (UNMAPPED, 1), (TOTAL_READS_IN_RG, 10), (DISCORDANT, 1),
           (PROPERLY_PAIRED, 8), (SINGLETON, 0)]"

definition example_summary_B :: metric_record where
  "example_summary_B =
     ints [(DUP_MARKED, 4), (DUP_REMOVED, 0), (UNIQUE_READS, 16),
           (TOTAL_ALIGNMENTS, 0), (TOTAL_BASES, 0)]"

definition example_rg_B :: metric_record where
  "example_rg_B =
     ints [(DUP_MARKED, 4), (DUP_REMOVED, 0), (UNIQUE_READS, 16),
           (TOTAL_ALIGNMENTS, 0), (TOTAL_BASES, 0), (UNIQUE_MAPPED, 14),
           (UNMAPPED, 2), (TOTAL_READS_IN_RG, 20), (DISCORDANT, 2),
           (PROPERLY_PAIRED, 16), (SINGLETON, 0)]"

definition example_doc_A :: log_file where
  "example_doc_A = \<lparr> fn = ''A.mapping_metrics.csv'', f_text = example_text_A \<rparr>"

definition example_doc_B :: log_file where
  "example_doc_B = \<lparr> fn = ''B.mapping_metrics.csv'', f_text = example_text_B \<rparr>"

definition example_doc_A_again :: log_file where
  "example_doc_A_again = \<lparr> fn = ''A.mapping_metrics.csv'', f_text = example_text_B \<rparr>"

definition nothing_ignored :: "string \<Rightarrow> bool" where
  "nothing_ignored name = False"

text \<open>Two read-group records for the duplication chart: in the first the three parts
  sum to the total, in the second they do not.\<close>

definition example_reconciled :: metric_record where
  "example_reconciled =
     ints [(UNIQUE_MAPPED, 7), (DUP_MARKED, 2), (UNMAPPED, 1), (TOTAL_READS_IN_RG, 10)]"

definition example_unreconciled :: metric_record where
  "example_unreconciled =
     ints [(UNIQUE_MAPPED, 7), (DUP_MARKED, 2), (UNMAPPED, 1), (TOTAL_READS_IN_RG, 11)]"

text \<open>
  What the spec says of the post-parse fixups, as a relation between a record \<open>data\<close>
  as the rows give it and the record \<open>data'\<close> that is produced: an unavailable count of
  duplicate marked reads, or of duplicate marked and mate reads removed, has become
  zero; an unavailable count of unique reads has become the record's value of
  \<^verbatim>\<open>Mapped reads\<close>; when \<^verbatim>\<open>Total alignments\<close> is greater than zero the record has
  \<^verbatim>\<open>Secondary alignments pct\<close>, the secondary alignments divided by the total
  alignments, times 100; when \<^verbatim>\<open>Total bases\<close> is greater than zero it has the three
  derived percentages of the total bases.
\<close>

definition derived_pct ::
  "(rat \<Rightarrow> pyfloat) \<Rightarrow> metric_record \<Rightarrow> metric_record \<Rightarrow> string \<Rightarrow> string \<Rightarrow> bool" where
  "derived_pct rnd data data' part whole =
     (\<exists>a b q p. dict_get data part = Inr a \<and> dict_get data whole = Inr b
        \<and> py_truediv rnd a b = Inr q \<and> py_mul rnd q (FloatV (Fin 100)) = Inr p
        \<and> dict_get data' (part @ '' pct'') = Inr p)"

definition fixups_applied :: "(rat \<Rightarrow> pyfloat) \<Rightarrow> metric_record \<Rightarrow> metric_record \<Rightarrow> bool" where
  "fixups_applied rnd data data' =
     ((dict_get data DUP_MARKED = Inr NA \<longrightarrow> dict_get data' DUP_MARKED = Inr (IntV 0))
      \<and> (dict_get data DUP_REMOVED = Inr NA \<longrightarrow> dict_get data' DUP_REMOVED = Inr (IntV 0))
      \<and> (dict_get data UNIQUE_READS = Inr NA \<longrightarrow>
            dict_get data' UNIQUE_READS = dict_get data MAPPED_READS)
      \<and> (\<forall>t. dict_get data TOTAL_ALIGNMENTS = Inr t \<and> py_gt_zero t = Inr True \<longrightarrow>
            derived_pct rnd data data' SECONDARY_ALIGNMENTS TOTAL_ALIGNMENTS)
      \<and> (\<forall>t. dict_get data TOTAL_BASES = Inr t \<and> py_gt_zero t = Inr True \<longrightarrow>
            derived_pct rnd data data' Q30_BASES_EXCL TOTAL_BASES
            \<and> derived_pct rnd data data' MAPPED_BASES_R1 TOTAL_BASES
            \<and> derived_pct rnd data data' MAPPED_BASES_R2 TOTAL_BASES))"


text \<open>A document whose summary section has unavailable duplicate counts and positive
  totals, with its record before and after the fixups; and two documents with two read
  groups, of which one has only \<^verbatim>\<open>Total reads in RG\<close>: the second read group in the first
  document, the first read group in the second.\<close>

definition example_text_C :: string where
  "example_text_C =
     csv_rows ''TUMOR MAPPING/ALIGNING SUMMARY'' []
       [(DUP_MARKED, ''NA''), (DUP_REMOVED, ''NA''), (UNIQUE_READS, ''NA''),
        (MAPPED_READS, ''90''), (TOTAL_ALIGNMENTS, ''200''), (SECONDARY_ALIGNMENTS, ''50''),
        (TOTAL_BASES, ''1000''), (Q30_BASES_EXCL, ''500''), (MAPPED_BASES_R1, ''250''),
        (MAPPED_BASES_R2, ''750'')]"

definition example_doc_C :: log_file where
  "example_doc_C = \<lparr> fn = ''C.mapping_metrics.csv'', f_text = example_text_C \<rparr>"

definition example_raw_C :: metric_record where
  "example_raw_C =
     [(DUP_MARKED, NA), (DUP_REMOVED, NA), (UNIQUE_READS, NA)]
     @ ints [(MAPPED_READS, 90), (TOTAL_ALIGNMENTS, 200), (SECONDARY_ALIGNMENTS, 50),
             (TOTAL_BASES, 1000), (Q30_BASES_EXCL, 500), (MAPPED_BASES_R1, 250),
             (MAPPED_BASES_R2, 750)]"

definition example_fixed_C :: metric_record where
  "example_fixed_C =
     ints [(DUP_MARKED, 0), (DUP_REMOVED, 0), (UNIQUE_READS, 90),
           (MAPPED_READS, 90), (TOTAL_ALIGNMENTS, 200), (SECONDARY_ALIGNMENTS, 50),
           (TOTAL_BASES, 1000), (Q30_BASES_EXCL, 500), (MAPPED_BASES_R1, 250),
           (MAPPED_BASES_R2, 750)]
     @ [(''Secondary alignments pct'', FloatV (Fin 25)),
        (''Q30 bases (excl. dups & clipped bases) pct'', FloatV (Fin 50)),
        (''Mapped bases R1 pct'', FloatV (Fin 25)),
        (''Mapped bases R2 pct'', FloatV (Fin 75))]"





text \<open>
  The key under which the merge of lines 55 to 60 stores a read group \<open>k\<close> of a document
  \<open>sname\<close> arriving at the mapping \<open>first_doc\<close>: the identifier itself, or the identifier
  followed by the document's name in parentheses when the mapping has it already
  (lines 57 to 59).
\<close>

definition renamed :: "records \<Rightarrow> string \<Rightarrow> string \<Rightarrow> string" where
  "renamed first_doc sname k = (if dict_has first_doc k then k @ '' ('' @ sname @ '')'' else k)"









section \<open>Lemmas on dictionaries and loops\<close>

lemma update_fresh: "k \<notin> fst ` set al \<Longrightarrow> AList.update k v al = al @ [(k, v)]"
  by (induction al) auto

lemma dict_has_iff: "dict_has d k \<longleftrightarrow> k \<in> fst ` set d"
  by (simp add: dict_has_def map_of_eq_None_iff)

lemma names_loop_snd:
  "snd (names_loop d (ns, m)) = (if d = [] then m else snd (last d))"
  by (induction d arbitrary: ns m) auto

lemma new_sn_neq: "sn @ '' normal'' \<noteq> sn"
  by simp

lemma flatten_doc_map_of:
  "map_of (flatten_doc sn ps acc) sn =
     (case filter (\<lambda>(p, d). p \<noteq> ''normal'') ps of
        [] \<Rightarrow> map_of acc sn
      | x # xs \<Rightarrow> Some (snd (last (x # xs))))"
proof (induction ps arbitrary: acc)
  case Nil
  then show ?case by simp
next
  case (Cons a ps)
  obtain p d where a: "a = (p, d)" by (cases a)
  show ?case
  proof (cases "p = ''normal''")
    case True
    then show ?thesis
      using Cons.IH [of "AList.update (sn @ '' normal'') d acc"]
      by (simp add: a new_sn_def update_conv' split: list.splits)
  next
    case False
    then show ?thesis
      using Cons.IH [of "AList.update sn d acc"]
      by (simp add: a new_sn_def update_conv' split: list.splits)
  qed
qed

lemma flatten_doc_other:
  "k \<noteq> sn \<Longrightarrow> k \<noteq> sn @ '' normal'' \<Longrightarrow> map_of (flatten_doc sn ps acc) k = map_of acc k"
  by (induction ps arbitrary: acc) (auto simp: new_sn_def update_conv')

lemma flatten_samples_other:
  "\<forall>(sn', ps') \<in> set docs. sn' \<noteq> k \<and> sn' @ '' normal'' \<noteq> k \<Longrightarrow>
   map_of (flatten_samples docs acc) k = map_of acc k"
proof (induction docs arbitrary: acc)
  case Nil
  then show ?case by simp
next
  case (Cons a docs)
  obtain sn ps where a: "a = (sn, ps)" by (cases a)
  from Cons.prems have "k \<noteq> sn" "k \<noteq> sn @ '' normal''" by (auto simp: a)
  then have "map_of (flatten_doc sn ps acc) k = map_of acc k"
    by (rule flatten_doc_other)
  moreover from Cons.prems have "\<forall>(sn', ps') \<in> set docs. sn' \<noteq> k \<and> sn' @ '' normal'' \<noteq> k"
    by simp
  ultimately show ?case
    using Cons.IH [of "flatten_doc sn ps acc"] by (simp add: a)
qed

lemma flatten_samples_append:
  "flatten_samples (xs @ ys) acc = flatten_samples ys (flatten_samples xs acc)"
  by (induction xs arbitrary: acc) auto

lemma merge_doc_fresh:
  "distinct (map fst rgs) \<Longrightarrow> fst ` set rgs \<inter> fst ` set acc = {} \<Longrightarrow>
   merge_doc sname rgs acc = acc @ rgs"
proof (induction rgs arbitrary: acc)
  case Nil
  then show ?case by simp
next
  case (Cons a rgs)
  obtain rg d where a: "a = (rg, d)" by (cases a)
  from Cons.prems(2) have fresh: "rg \<notin> fst ` set acc" unfolding a by simp
  from Cons.prems(1) have dist: "distinct (map fst rgs)" and nin: "rg \<notin> fst ` set rgs"
    unfolding a by simp_all
  from Cons.prems(2) have disj: "fst ` set rgs \<inter> fst ` set acc = {}" unfolding a by simp
  have "fst ` set rgs \<inter> fst ` set (acc @ [(rg, d)]) = {}"
    using disj nin by (simp add: image_Un)
  with dist have "merge_doc sname rgs (acc @ [(rg, d)]) = (acc @ [(rg, d)]) @ rgs"
    by (rule Cons.IH)
  moreover have "AList.update rg d acc = acc @ [(rg, d)]"
    using fresh by (rule update_fresh)
  moreover have "\<not> dict_has acc rg"
    using fresh by (simp add: dict_has_iff)
  ultimately show ?case
    unfolding a by simp
qed

lemma merge_doc_keeps:
  "rg \<in> fst ` set acc \<Longrightarrow> \<forall>k \<in> fst ` set rgs. k @ '' ('' @ sname @ '')'' \<noteq> rg \<Longrightarrow>
   map_of (merge_doc sname rgs acc) rg = map_of acc rg"
proof (induction rgs arbitrary: acc)
  case Nil
  then show ?case by simp
next
  case (Cons a rgs)
  obtain k d where a: "a = (k, d)" by (cases a)
  let ?key = "if dict_has acc k then k @ '' ('' @ sname @ '')'' else k"
  have ne: "?key \<noteq> rg"
    using Cons.prems by (auto simp: a dict_has_iff)
  have "map_of (merge_doc sname rgs (AList.update ?key d acc)) rg = map_of (AList.update ?key d acc) rg"
    using Cons.prems by (intro Cons.IH) (auto simp: a dom_update)
  then show ?case
    using ne by (simp add: a update_conv')
qed

lemma merge_doc_renamed:
  "distinct (map fst rgs) \<Longrightarrow> map_of rgs rg = Some b \<Longrightarrow> rg \<in> fst ` set acc \<Longrightarrow>
   map_of (merge_doc sname rgs acc) (rg @ '' ('' @ sname @ '')'') = Some b"
proof (induction rgs arbitrary: acc)
  case Nil
  then show ?case by simp
next
  case (Cons a rgs)
  obtain k d where a: "a = (k, d)" by (cases a)
  let ?key = "if dict_has acc k then k @ '' ('' @ sname @ '')'' else k"
  let ?acc = "AList.update ?key d acc"
  have grow: "rg \<in> fst ` set ?acc" using Cons.prems(3) by (simp add: dom_update)
  show ?case
  proof (cases "k = rg")
    case True
    then have d: "d = b" using Cons.prems(2) by (simp add: a)
    have key: "?key = rg @ '' ('' @ sname @ '')''"
      using True Cons.prems(3) by (simp add: dict_has_iff)
    have "rg \<notin> fst ` set rgs" using Cons.prems(1) True by (simp add: a)
    then have "\<forall>k' \<in> fst ` set rgs. k' @ '' ('' @ sname @ '')'' \<noteq> rg @ '' ('' @ sname @ '')''"
      by auto
    moreover have "rg @ '' ('' @ sname @ '')'' \<in> fst ` set ?acc"
      using key by (simp add: dom_update)
    ultimately have "map_of (merge_doc sname rgs ?acc) (rg @ '' ('' @ sname @ '')'')
          = map_of ?acc (rg @ '' ('' @ sname @ '')'')"
      by (rule merge_doc_keeps [rotated])
    then show ?thesis using key d by (simp add: a update_conv')
  next
    case False
    then have "map_of rgs rg = Some b" using Cons.prems(2) by (simp add: a)
    then have "map_of (merge_doc sname rgs ?acc) (rg @ '' ('' @ sname @ '')'') = Some b"
      using Cons.prems(1) grow by (intro Cons.IH) (auto simp: a)
    then show ?thesis by (simp add: a)
  qed
qed

lemma ebind_eq_Inr: "ebind m k = Inr y \<longleftrightarrow> (\<exists>x. m = Inr x \<and> k x = Inr y)"
  by (cases m) auto


lemma set_update_subset: "set (AList.update k v al) \<subseteq> insert (k, v) (set al)"
  by (induction al) auto

lemma update_mem: "(k, v) \<in> set (AList.update k v al)"
  by (induction al) auto

lemma chart_loop_inv:
  "chart_loop rnd parts msg data (chart0, lg0) = Inr (chart_data, lg) \<Longrightarrow>
   (\<forall>(s, r) \<in> set chart_data.
       (s, r) \<in> set chart0 \<or> ((s, r) \<in> set data \<and> mismatch rnd parts r = Inr False))
   \<and> (\<forall>(s, r) \<in> set data.
         (mismatch rnd parts r = Inr False \<and> s \<in> fst ` set chart_data)
         \<or> (mismatch rnd parts r = Inr True \<and> (Warning, msg @ s) \<in> set lg))
   \<and> fst ` set chart0 \<subseteq> fst ` set chart_data \<and> set lg0 \<subseteq> set lg"
proof (induction data arbitrary: chart0 lg0)
  case Nil
  then show ?case by simp
next
  case (Cons a data)
  obtain s r where a: "a = (s, r)" by (cases a)
  from Cons.prems obtain bad where bad: "mismatch rnd parts r = Inr bad"
    and rest: "chart_loop rnd parts msg data
                 (if bad then (chart0, lg0 @ [(Warning, msg @ s)])
                  else (AList.update s r chart0, lg0)) = Inr (chart_data, lg)"
    by (auto simp: a ebind_eq_Inr)
  show ?case
  proof (cases bad)
    case True
    with rest have "chart_loop rnd parts msg data (chart0, lg0 @ [(Warning, msg @ s)]) = Inr (chart_data, lg)"
      by simp
    from Cons.IH [OF this] show ?thesis
      using bad True by (auto simp: a)
  next
    case False
    with rest have "chart_loop rnd parts msg data (AList.update s r chart0, lg0) = Inr (chart_data, lg)"
      by simp
    from Cons.IH [OF this]
    have 1: "\<forall>(s', r') \<in> set chart_data.
               (s', r') \<in> set (AList.update s r chart0) \<or> ((s', r') \<in> set data \<and> mismatch rnd parts r' = Inr False)"
      and 2: "\<forall>(s', r') \<in> set data.
         (mismatch rnd parts r' = Inr False \<and> s' \<in> fst ` set chart_data)
         \<or> (mismatch rnd parts r' = Inr True \<and> (Warning, msg @ s') \<in> set lg)"
      and 3: "fst ` set (AList.update s r chart0) \<subseteq> fst ` set chart_data" and 4: "set lg0 \<subseteq> set lg"
      by blast+
    have 5: "s \<in> fst ` set chart_data" using 3 by (auto simp: dom_update)
    have 6: "fst ` set chart0 \<subseteq> fst ` set chart_data" using 3 by (auto simp: dom_update)
    have 7: "\<forall>(s', r') \<in> set chart_data.
               (s', r') \<in> set chart0 \<or> ((s', r') \<in> set (a # data) \<and> mismatch rnd parts r' = Inr False)"
      using 1 set_update_subset [of s r chart0] bad False by (fastforce simp: a)
    show ?thesis
      using 2 4 5 6 7 bad False by (auto simp: a)
  qed
qed

lemma sum_keys_dup:
  "sum_keys rnd r dup_parts = Inr s \<longleftrightarrow>
     (\<exists>a b c s1. dict_get r UNIQUE_MAPPED = Inr a \<and> dict_get r DUP_MARKED = Inr b
        \<and> py_add rnd a b = Inr s1 \<and> dict_get r UNMAPPED = Inr c \<and> py_add rnd s1 c = Inr s)"
  by (auto simp: sum_keys_def dup_parts_def ebind_eq_Inr)

lemma mismatch_dup:
  "mismatch rnd dup_parts r = Inr bad \<longleftrightarrow>
     (\<exists>a b c t s1 s. dict_get r UNIQUE_MAPPED = Inr a \<and> dict_get r DUP_MARKED = Inr b
        \<and> py_add rnd a b = Inr s1 \<and> dict_get r UNMAPPED = Inr c \<and> py_add rnd s1 c = Inr s
        \<and> dict_get r TOTAL_READS_IN_RG = Inr t \<and> bad = py_ne s t)"
  unfolding mismatch_def ebind_eq_Inr sum_keys_dup by auto

lemma dict_get_Inr: "dict_get d k = Inr v \<longleftrightarrow> map_of d k = Some v"
  by (simp add: dict_get_def split: option.splits)



lemma py_eq_NA: "py_eq v NA \<longleftrightarrow> v = NA"
proof (cases v)
  case (FloatV x)
  then show ?thesis by (cases x) (simp_all add: NA_def)
qed (auto simp: NA_def)

lemma na_to_zero_Inr:
  "na_to_zero d k = Inr d' \<longleftrightarrow>
     (\<exists>v. map_of d k = Some v \<and> d' = (if v = NA then AList.update k (IntV 0) d else d))"
  by (auto simp: na_to_zero_def ebind_eq_Inr dict_get_Inr py_eq_NA)


lemma unique_default_Inr:
  "unique_default d = Inr d' \<longleftrightarrow>
     (\<exists>v. map_of d UNIQUE_READS = Some v
        \<and> (if v = NA then \<exists>m. map_of d MAPPED_READS = Some m \<and> d' = AList.update UNIQUE_READS m d
            else d' = d))"
  by (auto simp: unique_default_def ebind_eq_Inr dict_get_Inr py_eq_NA)


lemma add_pct_Inr:
  "add_pct rnd d part whole = Inr d' \<longleftrightarrow>
     (\<exists>a b q p. map_of d part = Some a \<and> map_of d whole = Some b
        \<and> py_truediv rnd a b = Inr q \<and> py_mul rnd q (FloatV (Fin 100)) = Inr p
        \<and> d' = AList.update (part @ '' pct'') p d)"
  by (auto simp: add_pct_def percent_of_def ebind_eq_Inr dict_get_Inr)

lemma alignment_pct_Inr:
  "alignment_pct rnd d = Inr d' \<longleftrightarrow>
     (\<exists>t pos. map_of d TOTAL_ALIGNMENTS = Some t \<and> py_gt_zero t = Inr pos
        \<and> (if pos then add_pct rnd d SECONDARY_ALIGNMENTS TOTAL_ALIGNMENTS = Inr d' else d' = d))"
  by (auto simp: alignment_pct_def ebind_eq_Inr dict_get_Inr)

lemma bases_pct_Inr:
  "bases_pct rnd d = Inr d' \<longleftrightarrow>
     (\<exists>t pos. map_of d TOTAL_BASES = Some t \<and> py_gt_zero t = Inr pos
        \<and> (if pos
            then \<exists>d1 d2. add_pct rnd d Q30_BASES_EXCL TOTAL_BASES = Inr d1
                   \<and> add_pct rnd d1 MAPPED_BASES_R1 TOTAL_BASES = Inr d2
                   \<and> add_pct rnd d2 MAPPED_BASES_R2 TOTAL_BASES = Inr d'
            else d' = d))"
  by (auto simp: bases_pct_def ebind_eq_Inr dict_get_Inr)

lemma fix_record_Inr:
  "fix_record rnd data = Inr data' \<longleftrightarrow>
     (\<exists>d1 d2 d3 d4. na_to_zero data DUP_MARKED = Inr d1 \<and> na_to_zero d1 DUP_REMOVED = Inr d2
        \<and> unique_default d2 = Inr d3 \<and> alignment_pct rnd d3 = Inr d4 \<and> bases_pct rnd d4 = Inr data')"
  by (auto simp: fix_record_def ebind_eq_Inr)

lemmas metric_names =
  DUP_MARKED_def DUP_REMOVED_def UNIQUE_READS_def MAPPED_READS_def TOTAL_ALIGNMENTS_def
  SECONDARY_ALIGNMENTS_def TOTAL_BASES_def Q30_BASES_EXCL_def MAPPED_BASES_R1_def
  MAPPED_BASES_R2_def

lemma fix_record_fixups:
  assumes "fix_record rnd data = Inr data'"
  shows "fixups_applied rnd data data'"
proof -
  from assms obtain d1 d2 d3 d4 where
    s1: "na_to_zero data DUP_MARKED = Inr d1" and s2: "na_to_zero d1 DUP_REMOVED = Inr d2"
    and s3: "unique_default d2 = Inr d3" and s4: "alignment_pct rnd d3 = Inr d4"
    and s5: "bases_pct rnd d4 = Inr data'"
    unfolding fix_record_Inr by blast
  from s1 obtain v1 where v1: "map_of data DUP_MARKED = Some v1"
    and d1: "map_of d1 = (map_of data)(DUP_MARKED \<mapsto> (if v1 = NA then IntV 0 else v1))"
    unfolding na_to_zero_Inr by (auto simp: update_conv' map_upd_triv)
  from s2 obtain v2 where v2: "map_of d1 DUP_REMOVED = Some v2"
    and d2: "map_of d2 = (map_of d1)(DUP_REMOVED \<mapsto> (if v2 = NA then IntV 0 else v2))"
    unfolding na_to_zero_Inr by (auto simp: update_conv' map_upd_triv)
  from s3 obtain v3 where v3: "map_of d2 UNIQUE_READS = Some v3"
    and c3: "if v3 = NA then \<exists>m. map_of d2 MAPPED_READS = Some m \<and> d3 = AList.update UNIQUE_READS m d2
             else d3 = d2"
    unfolding unique_default_Inr by blast
  have m3: "v3 = NA \<longrightarrow> map_of d2 MAPPED_READS \<noteq> None"
    using c3 by auto
  have d3: "map_of d3 = (map_of d2)(UNIQUE_READS := (if v3 = NA then map_of d2 MAPPED_READS else Some v3))"
  proof (cases "v3 = NA")
    case True
    with c3 obtain m where "map_of d2 MAPPED_READS = Some m" "d3 = AList.update UNIQUE_READS m d2"
      by auto
    then show ?thesis using True by (simp add: update_conv')
  next
    case False
    with c3 have "d3 = d2" by simp
    then show ?thesis using False v3 by (simp add: map_upd_triv)
  qed
  define P where "P = (\<lambda>d part whole (d'::metric_record).
     \<exists>a b q p. map_of d part = Some a \<and> map_of d whole = Some b
        \<and> py_truediv rnd a b = Inr q \<and> py_mul rnd q (FloatV (Fin 100)) = Inr p
        \<and> map_of d' = (map_of d)(part @ '' pct'' \<mapsto> p))"
  have P: "P d part whole d'" if "add_pct rnd d part whole = Inr d'" for d part whole d'
    using that unfolding add_pct_Inr P_def by (auto simp: update_conv')
  from s4 obtain t4 pos4 where t4: "map_of d3 TOTAL_ALIGNMENTS = Some t4" "py_gt_zero t4 = Inr pos4"
    and r4: "if pos4 then add_pct rnd d3 SECONDARY_ALIGNMENTS TOTAL_ALIGNMENTS = Inr d4 else d4 = d3"
    unfolding alignment_pct_Inr by blast
  have d4: "if pos4 then P d3 SECONDARY_ALIGNMENTS TOTAL_ALIGNMENTS d4 else d4 = d3"
    using r4 P by (cases pos4) simp_all
  from s5 obtain t5 pos5 where t5: "map_of d4 TOTAL_BASES = Some t5" "py_gt_zero t5 = Inr pos5"
    and r5: "if pos5
            then \<exists>e1 e2. add_pct rnd d4 Q30_BASES_EXCL TOTAL_BASES = Inr e1
                   \<and> add_pct rnd e1 MAPPED_BASES_R1 TOTAL_BASES = Inr e2
                   \<and> add_pct rnd e2 MAPPED_BASES_R2 TOTAL_BASES = Inr data'
            else data' = d4"
    unfolding bases_pct_Inr by blast
  have d5: "if pos5 then \<exists>e1 e2. P d4 Q30_BASES_EXCL TOTAL_BASES e1
               \<and> P e1 MAPPED_BASES_R1 TOTAL_BASES e2 \<and> P e2 MAPPED_BASES_R2 TOTAL_BASES data'
             else data' = d4"
  proof (cases pos5)
    case True
    with r5 obtain e1 e2 where "add_pct rnd d4 Q30_BASES_EXCL TOTAL_BASES = Inr e1"
        "add_pct rnd e1 MAPPED_BASES_R1 TOTAL_BASES = Inr e2"
        "add_pct rnd e2 MAPPED_BASES_R2 TOTAL_BASES = Inr data'"
      by auto
    then have "P d4 Q30_BASES_EXCL TOTAL_BASES e1" "P e1 MAPPED_BASES_R1 TOTAL_BASES e2"
        "P e2 MAPPED_BASES_R2 TOTAL_BASES data'"
      by (simp_all add: P)
    with True show ?thesis by auto
  next
    case False
    with r5 show ?thesis by simp
  qed
  have keep3: "map_of d3 k = map_of data k"
    if "k \<noteq> DUP_MARKED" "k \<noteq> DUP_REMOVED" "k \<noteq> UNIQUE_READS" for k
    using that by (simp add: d1 d2 d3)
  have keep4: "map_of d4 k = map_of d3 k" if "k \<noteq> SECONDARY_ALIGNMENTS @ '' pct''" for k
    using d4 that by (auto simp: P_def split: if_splits)
  have keep5: "map_of data' k = map_of d4 k"
    if "k \<noteq> Q30_BASES_EXCL @ '' pct''" "k \<noteq> MAPPED_BASES_R1 @ '' pct''"
       "k \<noteq> MAPPED_BASES_R2 @ '' pct''" for k
    using d5 that by (auto simp: P_def split: if_splits)
  have A: "dict_get data DUP_MARKED = Inr NA \<longrightarrow> dict_get data' DUP_MARKED = Inr (IntV 0)"
  proof
    assume "dict_get data DUP_MARKED = Inr NA"
    with v1 have "v1 = NA" by (simp add: dict_get_Inr)
    then have "map_of d3 DUP_MARKED = Some (IntV 0)"
      by (simp add: d1 d2 d3 metric_names)
    then have "map_of data' DUP_MARKED = Some (IntV 0)"
      by (simp add: keep5 keep4 metric_names)
    then show "dict_get data' DUP_MARKED = Inr (IntV 0)" by (simp add: dict_get_Inr)
  qed
  have B: "dict_get data DUP_REMOVED = Inr NA \<longrightarrow> dict_get data' DUP_REMOVED = Inr (IntV 0)"
  proof
    assume "dict_get data DUP_REMOVED = Inr NA"
    then have "map_of d1 DUP_REMOVED = Some NA" by (simp add: dict_get_Inr d1 metric_names)
    with v2 have "v2 = NA" by simp
    then have "map_of d3 DUP_REMOVED = Some (IntV 0)"
      by (simp add: d2 d3 metric_names)
    then have "map_of data' DUP_REMOVED = Some (IntV 0)"
      by (simp add: keep5 keep4 metric_names)
    then show "dict_get data' DUP_REMOVED = Inr (IntV 0)" by (simp add: dict_get_Inr)
  qed
  have C: "dict_get data UNIQUE_READS = Inr NA \<longrightarrow>
            dict_get data' UNIQUE_READS = dict_get data MAPPED_READS"
  proof
    assume "dict_get data UNIQUE_READS = Inr NA"
    then have "map_of d2 UNIQUE_READS = Some NA"
      by (simp add: dict_get_Inr d1 d2 metric_names)
    with v3 have na: "v3 = NA" by simp
    have mm: "map_of d2 MAPPED_READS = map_of data MAPPED_READS"
      by (simp add: d1 d2 metric_names)
    from na m3 obtain m where m: "map_of data MAPPED_READS = Some m" using mm by auto
    have "map_of d3 UNIQUE_READS = Some m" using na m mm by (simp add: d3)
    then have "map_of data' UNIQUE_READS = Some m"
      by (simp add: keep5 keep4 metric_names)
    then show "dict_get data' UNIQUE_READS = dict_get data MAPPED_READS"
      using m by (simp add: dict_get_def)
  qed
  have D: "derived_pct rnd data data' SECONDARY_ALIGNMENTS TOTAL_ALIGNMENTS"
    if "dict_get data TOTAL_ALIGNMENTS = Inr t" "py_gt_zero t = Inr True" for t
  proof -
    have "map_of d3 TOTAL_ALIGNMENTS = map_of data TOTAL_ALIGNMENTS"
      by (rule keep3) (simp_all add: metric_names)
    with that t4 have "pos4" by (simp add: dict_get_Inr)
    with d4 obtain a b q p where *: "map_of d3 SECONDARY_ALIGNMENTS = Some a"
        "map_of d3 TOTAL_ALIGNMENTS = Some b" "py_truediv rnd a b = Inr q"
        "py_mul rnd q (FloatV (Fin 100)) = Inr p"
        "map_of d4 = (map_of d3)(SECONDARY_ALIGNMENTS @ '' pct'' \<mapsto> p)"
      by (auto simp: P_def)
    have "map_of data SECONDARY_ALIGNMENTS = Some a" "map_of data TOTAL_ALIGNMENTS = Some b"
      using * keep3 [of SECONDARY_ALIGNMENTS] keep3 [of TOTAL_ALIGNMENTS]
      by (simp_all add: metric_names)
    moreover have "map_of data' (SECONDARY_ALIGNMENTS @ '' pct'') = Some p"
      using * by (simp add: keep5 metric_names)
    ultimately show ?thesis
      using * unfolding derived_pct_def dict_get_Inr by blast
  qed
  have E: "derived_pct rnd data data' Q30_BASES_EXCL TOTAL_BASES
            \<and> derived_pct rnd data data' MAPPED_BASES_R1 TOTAL_BASES
            \<and> derived_pct rnd data data' MAPPED_BASES_R2 TOTAL_BASES"
    if "dict_get data TOTAL_BASES = Inr t" "py_gt_zero t = Inr True" for t
  proof -
    have orig: "map_of d4 k = map_of data k"
      if "k \<in> {TOTAL_BASES, Q30_BASES_EXCL, MAPPED_BASES_R1, MAPPED_BASES_R2}" for k
      using that keep4 [of k] keep3 [of k] by (auto simp: metric_names)
    with that t5 have "pos5" by (simp add: dict_get_Inr)
    with d5 obtain e1 e2 where e: "P d4 Q30_BASES_EXCL TOTAL_BASES e1"
        "P e1 MAPPED_BASES_R1 TOTAL_BASES e2" "P e2 MAPPED_BASES_R2 TOTAL_BASES data'"
      by auto
    from e(1) obtain a1 b1 q1 p1 where 1: "map_of d4 Q30_BASES_EXCL = Some a1"
        "map_of d4 TOTAL_BASES = Some b1" "py_truediv rnd a1 b1 = Inr q1"
        "py_mul rnd q1 (FloatV (Fin 100)) = Inr p1"
        "map_of e1 = (map_of d4)(Q30_BASES_EXCL @ '' pct'' \<mapsto> p1)"
      unfolding P_def by blast
    from e(2) obtain a2 b2 q2 p2 where 2: "map_of e1 MAPPED_BASES_R1 = Some a2"
        "map_of e1 TOTAL_BASES = Some b2" "py_truediv rnd a2 b2 = Inr q2"
        "py_mul rnd q2 (FloatV (Fin 100)) = Inr p2"
        "map_of e2 = (map_of e1)(MAPPED_BASES_R1 @ '' pct'' \<mapsto> p2)"
      unfolding P_def by blast
    from e(3) obtain a3 b3 q3 p3 where 3: "map_of e2 MAPPED_BASES_R2 = Some a3"
        "map_of e2 TOTAL_BASES = Some b3" "py_truediv rnd a3 b3 = Inr q3"
        "py_mul rnd q3 (FloatV (Fin 100)) = Inr p3"
        "map_of data' = (map_of e2)(MAPPED_BASES_R2 @ '' pct'' \<mapsto> p3)"
      unfolding P_def by blast
    have "map_of data Q30_BASES_EXCL = Some a1" "map_of data TOTAL_BASES = Some b1"
      using 1 orig by simp_all
    moreover have "map_of data' (Q30_BASES_EXCL @ '' pct'') = Some p1"
      by (simp add: 3 2 1 metric_names)
    ultimately have x: "derived_pct rnd data data' Q30_BASES_EXCL TOTAL_BASES"
      using 1 unfolding derived_pct_def dict_get_Inr by blast
    have "map_of data MAPPED_BASES_R1 = Some a2" "map_of data TOTAL_BASES = Some b2"
      using 2 orig by (simp_all add: 1 metric_names)
    moreover have "map_of data' (MAPPED_BASES_R1 @ '' pct'') = Some p2"
      by (simp add: 3 2 1 metric_names)
    ultimately have y: "derived_pct rnd data data' MAPPED_BASES_R1 TOTAL_BASES"
      using 2 unfolding derived_pct_def dict_get_Inr by blast
    have "map_of data MAPPED_BASES_R2 = Some a3" "map_of data TOTAL_BASES = Some b3"
      using 3 orig by (simp_all add: 2 1 metric_names)
    moreover have "map_of data' (MAPPED_BASES_R2 @ '' pct'') = Some p3"
      by (simp add: 3)
    ultimately have z: "derived_pct rnd data data' MAPPED_BASES_R2 TOTAL_BASES"
      using 3 unfolding derived_pct_def dict_get_Inr by blast
    from x y z show ?thesis by blast
  qed
  from A B C D E show ?thesis
    unfolding fixups_applied_def by blast
qed

lemma fix_records_Inr:
  "fix_records rnd ds = Inr ds' \<Longrightarrow>
   list_all2 (\<lambda>(e, d) (e', d'). e' = e \<and> fix_record rnd d = Inr d') ds ds'"
proof (induction ds arbitrary: ds')
  case Nil
  then show ?case by simp
next
  case (Cons a ds)
  obtain e d where a: "a = (e, d)" by (cases a)
  from Cons.prems obtain d' rest' where "fix_record rnd d = Inr d'" "fix_records rnd ds = Inr rest'"
    "ds' = (e, d') # rest'"
    by (auto simp: a ebind_eq_Inr)
  then show ?case using Cons.IH [of rest'] by (simp add: a)
qed


















lemma flatten_doc_keep:
  "(k = sn \<longrightarrow> (\<forall>p \<in> fst ` set ps. p = ''normal'')) \<Longrightarrow>
   (k = sn @ '' normal'' \<longrightarrow> ''normal'' \<notin> fst ` set ps) \<Longrightarrow>
   map_of (flatten_doc sn ps acc) k = map_of acc k"
proof (induction ps arbitrary: acc)
  case Nil
  then show ?case by simp
next
  case (Cons a ps)
  obtain p d where a: "a = (p, d)" by (cases a)
  have ne: "new_sn sn p \<noteq> k"
    using Cons.prems by (auto simp: a new_sn_def)
  have "map_of (flatten_doc sn ps (AList.update (new_sn sn p) d acc)) k
        = map_of (AList.update (new_sn sn p) d acc) k"
    using Cons.prems by (intro Cons.IH) (auto simp: a)
  then show ?case using ne by (simp add: a update_conv')
qed

lemma flatten_samples_keep:
  "\<forall>(sn', ps') \<in> set docs. (k = sn' \<longrightarrow> (\<forall>p \<in> fst ` set ps'. p = ''normal''))
       \<and> (k = sn' @ '' normal'' \<longrightarrow> ''normal'' \<notin> fst ` set ps') \<Longrightarrow>
   map_of (flatten_samples docs acc) k = map_of acc k"
proof (induction docs arbitrary: acc)
  case Nil
  then show ?case by simp
next
  case (Cons a docs)
  obtain sn ps where a: "a = (sn, ps)" by (cases a)
  from Cons.prems have "map_of (flatten_doc sn ps acc) k = map_of acc k"
    by (intro flatten_doc_keep) (auto simp: a)
  moreover from Cons.prems have "map_of (flatten_samples docs (flatten_doc sn ps acc)) k
      = map_of (flatten_doc sn ps acc) k"
    by (intro Cons.IH) simp
  ultimately show ?case by (simp add: a)
qed

lemma merge_doc_append:
  "merge_doc sname (xs @ ys) acc = merge_doc sname ys (merge_doc sname xs acc)"
  by (induction xs arbitrary: acc) auto

lemma merge_doc_all_kept:
  assumes side: "\<forall>k \<in> K. dict_has first_doc k \<longrightarrow>
                   k @ '' ('' @ sname @ '')'' \<notin> fst ` set first_doc \<union> K"
  shows "fst ` set xs \<subseteq> K \<Longrightarrow> distinct (map fst xs) \<Longrightarrow>
         merge_doc sname xs first_doc
           = first_doc @ map (\<lambda>(k, d). (renamed first_doc sname k, d)) xs"
proof (induction xs rule: rev_induct)
  case Nil
  then show ?case by simp
next
  case (snoc x xs)
  obtain k d where x: "x = (k, d)" by (cases x)
  let ?sfx = "'' ('' @ sname @ '')''"
  let ?acc = "first_doc @ map (\<lambda>(k, d). (renamed first_doc sname k, d)) xs"
  from snoc.prems have sub: "fst ` set xs \<subseteq> K" and kK: "k \<in> K"
    and dist: "distinct (map fst xs)" and knew: "k \<notin> fst ` set xs"
    by (auto simp: x)
  have IH: "merge_doc sname xs first_doc = ?acc" using snoc.IH sub dist by simp
  have keys: "fst ` set ?acc = fst ` set first_doc \<union> renamed first_doc sname ` fst ` set xs"
    by (auto simp: image_Un image_image case_prod_beta)
  have not_ren: "y \<notin> renamed first_doc sname ` fst ` set xs"
    if "y = k \<or> (dict_has first_doc k \<and> y = k @ ?sfx)" for y
  proof
    assume "y \<in> renamed first_doc sname ` fst ` set xs"
    then obtain k' where k': "k' \<in> fst ` set xs" "y = renamed first_doc sname k'" by auto
    then have k'K: "k' \<in> K" and ne: "k' \<noteq> k" using sub knew by auto
    show False
    proof (cases "dict_has first_doc k'")
      case True
      then have y: "y = k' @ ?sfx" using k' by (simp add: renamed_def)
      from side k'K True have "k' @ ?sfx \<notin> K" by auto
      with that y kK ne show False by auto
    next
      case False
      then have y: "y = k'" using k' by (simp add: renamed_def)
      from that y ne have "dict_has first_doc k" "k' = k @ ?sfx" by auto
      with side kK k'K show False by auto
    qed
  qed
  have has: "dict_has ?acc k \<longleftrightarrow> dict_has first_doc k"
    using not_ren [of k] by (auto simp: dict_has_iff keys simp del: set_append map_append)
  have fresh: "renamed first_doc sname k \<notin> fst ` set ?acc"
  proof (cases "dict_has first_doc k")
    case True
    then have "k @ ?sfx \<notin> fst ` set first_doc" using side kK by auto
    moreover have "k @ ?sfx \<notin> renamed first_doc sname ` fst ` set xs"
      using not_ren [of "k @ ?sfx"] True by simp
    ultimately show ?thesis using True unfolding keys by (simp add: renamed_def)
  next
    case False
    then have "k \<notin> fst ` set first_doc" by (simp add: dict_has_iff)
    moreover have "k \<notin> renamed first_doc sname ` fst ` set xs"
      using not_ren [of k] by simp
    ultimately show ?thesis using False unfolding keys by (simp add: renamed_def)
  qed
  have "merge_doc sname (xs @ [x]) first_doc
        = AList.update (if dict_has ?acc k then k @ ?sfx else k) d ?acc"
    by (simp add: merge_doc_append IH x)
  also have "(if dict_has ?acc k then k @ ?sfx else k) = renamed first_doc sname k"
    unfolding has by (simp add: renamed_def)
  also have "AList.update (renamed first_doc sname k) d ?acc = ?acc @ [(renamed first_doc sname k, d)]"
    using fresh by (rule update_fresh)
  finally show ?case by (simp add: x)
qed

lemma merge_doc_distinct:
  "distinct (map fst acc) \<Longrightarrow> distinct (map fst (merge_doc sname rgs acc))"
  by (induction rgs arbitrary: acc) (auto simp: distinct_update)




















lemma split_on_none: "c \<notin> set a \<Longrightarrow> split_on c a = [a]"
  by (induction a) auto

lemma split_on_append: "c \<notin> set a \<Longrightarrow> split_on c (a @ c # b) = a # split_on c b"
  by (induction a) auto




lemma dd_get_dd_set:
  "dd_get (dd_set g k s v) m = (if m = k then AList.update s v (dd_get g k) else dd_get g m)"
  by (simp add: dd_get_def dd_set_def update_conv')

lemma collect_record_mem:
  "(s', v) \<in> set (dd_get (collect_record s r g) m) \<Longrightarrow>
   (s', v) \<in> set (dd_get g m) \<or> (s' = s \<and> (m, v) \<in> set r)"
proof (induction r arbitrary: g)
  case Nil
  then show ?case by simp
next
  case (Cons a r)
  obtain k w where a: "a = (k, w)" by (cases a)
  let ?g = "if k \<in> set general_ids then dd_set g k s w else g"
  from Cons.prems have "(s', v) \<in> set (dd_get (collect_record s r ?g) m)" by (simp add: a)
  from Cons.IH [OF this] consider "(s', v) \<in> set (dd_get ?g m)" | "s' = s \<and> (m, v) \<in> set r" by blast
  then show ?case
  proof cases
    case 1
    then have "(s', v) \<in> set (dd_get g m) \<or> (m = k \<and> (s', v) \<in> set (AList.update s w (dd_get g k)))"
      by (auto simp: dd_get_dd_set split: if_splits)
    then show ?thesis
      using set_update_subset [of s w "dd_get g k"] by (auto simp: a)
  next
    case 2
    then show ?thesis by simp
  qed
qed

lemma collect_general_mem:
  "(s, v) \<in> set (dd_get (collect_general data g) m) \<Longrightarrow>
   (s, v) \<in> set (dd_get g m) \<or> (\<exists>r. (s, r) \<in> set data \<and> (m, v) \<in> set r)"
proof (induction data arbitrary: g)
  case Nil
  then show ?case by simp
next
  case (Cons a data)
  obtain s0 r0 where a: "a = (s0, r0)" by (cases a)
  from Cons.prems have "(s, v) \<in> set (dd_get (collect_general data (collect_record s0 r0 g)) m)"
    by (simp add: a)
  from Cons.IH [OF this] consider "(s, v) \<in> set (dd_get (collect_record s0 r0 g) m)"
    | "\<exists>r. (s, r) \<in> set data \<and> (m, v) \<in> set r" by blast
  then show ?case
  proof cases
    case 1
    from collect_record_mem [OF this] show ?thesis by (auto simp: a)
  next
    case 2
    then show ?thesis by auto
  qed
qed

lemma update_keys: "fst ` set (AList.update k v al) = insert k (fst ` set al)"
  by (induction al) auto

lemma collect_record_keys_mono:
  "s' \<in> fst ` set (dd_get g m) \<Longrightarrow> s' \<in> fst ` set (dd_get (collect_record s r g) m)"
proof (induction r arbitrary: g)
  case Nil
  then show ?case by simp
next
  case (Cons a r)
  obtain k w where a: "a = (k, w)" by (cases a)
  let ?g = "if k \<in> set general_ids then dd_set g k s w else g"
  have "s' \<in> fst ` set (dd_get ?g m)"
    using Cons.prems by (auto simp: dd_get_dd_set update_keys)
  from Cons.IH [OF this] show ?case by (simp add: a)
qed

lemma collect_record_keys:
  "(m, v) \<in> set r \<Longrightarrow> m \<in> set general_ids \<Longrightarrow> s \<in> fst ` set (dd_get (collect_record s r g) m)"
proof (induction r arbitrary: g)
  case Nil
  then show ?case by simp
next
  case (Cons a r)
  obtain k w where a: "a = (k, w)" by (cases a)
  let ?g = "if k \<in> set general_ids then dd_set g k s w else g"
  show ?case
  proof (cases "(m, v) = (k, w)")
    case True
    then have "s \<in> fst ` set (dd_get ?g m)"
      using Cons.prems(2) by (auto simp: dd_get_dd_set update_keys)
    from collect_record_keys_mono [OF this] show ?thesis by (simp add: a)
  next
    case False
    then have "(m, v) \<in> set r" using Cons.prems(1) by (auto simp: a)
    from Cons.IH [OF this Cons.prems(2)] show ?thesis by (simp add: a)
  qed
qed

lemma collect_general_keys_mono:
  "s' \<in> fst ` set (dd_get g m) \<Longrightarrow> s' \<in> fst ` set (dd_get (collect_general data g) m)"
proof (induction data arbitrary: g)
  case Nil
  then show ?case by simp
next
  case (Cons a data)
  obtain s0 r0 where a: "a = (s0, r0)" by (cases a)
  from Cons.IH [OF collect_record_keys_mono [OF Cons.prems]] show ?case by (simp add: a)
qed

lemma collect_general_keys:
  "(s, r) \<in> set data \<Longrightarrow> (m, v) \<in> set r \<Longrightarrow> m \<in> set general_ids \<Longrightarrow>
   s \<in> fst ` set (dd_get (collect_general data g) m)"
proof (induction data arbitrary: g)
  case Nil
  then show ?case by simp
next
  case (Cons a data)
  obtain s0 r0 where a: "a = (s0, r0)" by (cases a)
  show ?case
  proof (cases "(s, r) = (s0, r0)")
    case True
    then have "s \<in> fst ` set (dd_get (collect_record s0 r0 g) m)"
      using collect_record_keys [OF Cons.prems(2,3)] by simp
    from collect_general_keys_mono [OF this] show ?thesis by (simp add: a)
  next
    case False
    then have "(s, r) \<in> set data" using Cons.prems(1) by (auto simp: a)
    from Cons.IH [OF this Cons.prems(2,3)] show ?thesis by (simp add: a)
  qed
qed

lemma collect_record_distinct:
  "\<forall>m. distinct (map fst (dd_get g m)) \<Longrightarrow> distinct (map fst (dd_get (collect_record s r g) m))"
proof (induction r arbitrary: g m)
  case Nil
  then show ?case by simp
next
  case (Cons a r)
  obtain k w where a: "a = (k, w)" by (cases a)
  let ?g = "if k \<in> set general_ids then dd_set g k s w else g"
  have "\<forall>m. distinct (map fst (dd_get ?g m))"
    using Cons.prems by (simp add: dd_get_dd_set distinct_update)
  from Cons.IH [OF this] show ?case by (simp add: a)
qed

lemma collect_general_distinct:
  "\<forall>m. distinct (map fst (dd_get g m)) \<Longrightarrow> distinct (map fst (dd_get (collect_general data g) m))"
proof (induction data arbitrary: g m)
  case Nil
  then show ?case by simp
next
  case (Cons a data)
  obtain s0 r0 where a: "a = (s0, r0)" by (cases a)
  have "\<forall>m. distinct (map fst (dd_get (collect_record s0 r0 g) m))"
    using collect_record_distinct [OF Cons.prems] by simp
  from Cons.IH [OF this] show ?case by (simp add: a)
qed

lemma py_set_snoc: "py_set (xs @ [x]) = set_add (py_set xs) x"
  by (simp add: py_set_def)

lemma py_set_subset: "set (py_set xs) \<subseteq> set xs"
  by (induction xs rule: rev_induct) (auto simp: py_set_snoc set_add_def py_set_def)

lemma py_set_length_mono: "length (py_set xs) \<le> length (py_set (xs @ [x]))"
  by (simp add: py_set_snoc set_add_def)

lemma py_set_empty: "py_set xs = [] \<Longrightarrow> xs = []"
proof (induction xs rule: rev_induct)
  case Nil
  then show ?case by simp
next
  case (snoc x xs)
  then show ?case by (auto simp: py_set_snoc set_add_def split: if_splits)
qed

lemma py_set_two:
  "2 \<le> length (py_set xs) \<Longrightarrow> \<exists>i j. i < j \<and> j < length xs \<and> \<not> py_eq (xs ! i) (xs ! j)"
proof (induction xs rule: rev_induct)
  case Nil
  then show ?case by (simp add: py_set_def)
next
  case (snoc x xs)
  show ?case
  proof (cases "2 \<le> length (py_set xs)")
    case True
    from snoc.IH [OF this] obtain i j where "i < j" "j < length xs" "\<not> py_eq (xs ! i) (xs ! j)"
      by blast
    then have "i < j \<and> j < length (xs @ [x]) \<and> \<not> py_eq ((xs @ [x]) ! i) ((xs @ [x]) ! j)"
      by (simp add: nth_append)
    then show ?thesis by blast
  next
    case False
    with snoc.prems have added: "set_add (py_set xs) x = py_set xs @ [x]" and len: "length (py_set xs) = 1"
      by (auto simp: py_set_snoc set_add_def split: if_splits)
    from len obtain y where y: "py_set xs = [y]" by (cases "py_set xs") auto
    from added have "\<not> py_eq y x" by (auto simp: set_add_def y split: if_splits)
    moreover from y py_set_subset [of xs] have "y \<in> set xs" by auto
    then obtain i where "i < length xs" "xs ! i = y" by (auto simp: in_set_conv_nth)
    ultimately have "i < length xs \<and> length xs < length (xs @ [x])
        \<and> \<not> py_eq ((xs @ [x]) ! i) ((xs @ [x]) ! length xs)"
      by (simp add: nth_append)
    then show ?thesis by blast
  qed
qed

lemma del_metric_Inr:
  "del_metric m data = Inr data' \<Longrightarrow> data' = map (\<lambda>(s, r). (s, AList.delete m r)) data"
proof (induction data arbitrary: data')
  case Nil
  then show ?case by simp
next
  case (Cons a data)
  obtain s r where a: "a = (s, r)" by (cases a)
  from Cons.prems obtain r' rest' where "dict_del r m = Inr r'" "del_metric m data = Inr rest'"
    "data' = (s, r') # rest'"
    by (auto simp: a ebind_eq_Inr)
  with Cons.IH [of rest'] show ?case
    by (auto simp: a dict_del_def split: if_splits)
qed

lemma promote_metric_Inr:
  assumes "promote_metric rnd sf cfg g (m, title, fmt, modify) (data, info) = Inr (data', info')"
  shows "data' = (if length (py_set (map snd (dd_get g m))) = 1
                  then map (\<lambda>(s, r). (s, AList.delete m r)) data else data)"
proof (cases "length (py_set (map snd (dd_get g m))) = 1")
  case True
  with assms obtain i2 where "del_metric m data = Inr data'"
    by (auto simp: promote_metric_def Let_def ebind_eq_Inr)
  from del_metric_Inr [OF this] True show ?thesis by simp
next
  case False
  with assms show ?thesis by (simp add: promote_metric_def Let_def)
qed

lemma promote_metrics_Inr:
  "promote_metrics rnd sf cfg g gms (data, info) = Inr (data', info') \<Longrightarrow>
   data' = map (\<lambda>sr. (fst sr, filter (\<lambda>kv.
              \<not> (fst kv \<in> fst ` set gms \<and> length (py_set (map snd (dd_get g (fst kv)))) = 1)) (snd sr))) data"
proof (induction gms arbitrary: data info)
  case Nil
  then show ?case by (simp add: map_idI)
next
  case (Cons gm gms)
  obtain m title fmt modify where gm: "gm = (m, title, fmt, modify)" by (cases gm)
  from Cons.prems obtain data1 info1 where
    1: "promote_metric rnd sf cfg g (m, title, fmt, modify) (data, info) = Inr (data1, info1)"
    and 2: "promote_metrics rnd sf cfg g gms (data1, info1) = Inr (data', info')"
    by (auto simp: gm ebind_eq_Inr)
  note d1 = promote_metric_Inr [OF 1]
  note d' = Cons.IH [OF 2]
  show ?case
  proof (cases "length (py_set (map snd (dd_get g m))) = 1")
    case True
    have del: "AList.delete m r = filter (\<lambda>kv. fst kv \<noteq> m) r" for r :: metric_record
      by (induction r) auto
    have f: "filter (\<lambda>kv. \<not> (fst kv \<in> fst ` set gms \<and> length (py_set (map snd (dd_get g (fst kv)))) = 1))
            (AList.delete m r)
          = filter (\<lambda>kv. \<not> (fst kv \<in> fst ` set (gm # gms)
                        \<and> length (py_set (map snd (dd_get g (fst kv)))) = 1)) r"
      for r :: metric_record
      unfolding del filter_filter using True by (intro filter_cong) (auto simp: gm)
    have d1': "data1 = map (\<lambda>sr. (fst sr, AList.delete m (snd sr))) data"
      using d1 True by (simp add: case_prod_beta)
    show ?thesis
      unfolding d' d1' map_map comp_def fst_conv snd_conv f ..
  next
    case False
    have f: "filter (\<lambda>kv. \<not> (fst kv \<in> fst ` set gms \<and> length (py_set (map snd (dd_get g (fst kv)))) = 1)) r
          = filter (\<lambda>kv. \<not> (fst kv \<in> fst ` set (gm # gms)
                        \<and> length (py_set (map snd (dd_get g (fst kv)))) = 1)) r"
      for r :: metric_record
      using False by (intro filter_cong) (auto simp: gm)
    have d1': "data1 = data" using d1 False by simp
    show ?thesis
      unfolding d' d1' f ..
  qed
qed

lemma general_ids_catalog: "fst ` set (GENERAL_METRICS rnd cfg) = set general_ids"
  by (simp add: GENERAL_METRICS_def general_ids_def)

lemma header_step_names:
  "set ns = set ns' \<Longrightarrow> header_step rnd cfg ns m st = header_step rnd cfg ns' m st"
  by (simp add: header_step_def)

lemma headers_over_names:
  "set ns = set ns' \<Longrightarrow> headers_over rnd cfg catalog ns = headers_over rnd cfg catalog ns'"
proof -
  assume "set ns = set ns'"
  then have "(\<lambda>st m. header_step rnd cfg ns m st) = (\<lambda>st m. header_step rnd cfg ns' m st)"
    by (intro ext) (rule header_step_names)
  then show ?thesis by (simp add: headers_over_def)
qed

lemma header_step_keys:
  assumes "id_in_data @ '' pct'' \<notin> fst ` set sh" "id_in_data \<notin> fst ` set sh"
      and "id_in_data \<notin> fst ` set bk"
  shows "map fst (fst (header_step rnd cfg ns (id_in_data, title, showing, unit, bees, descr) (sh, bk)))
         = map fst sh @ (if id_in_data @ '' pct'' \<in> set ns then [id_in_data @ '' pct''] else []) @ [id_in_data]"
    and "map fst (snd (header_step rnd cfg ns (id_in_data, title, showing, unit, bees, descr) (sh, bk)))
         = map fst bk @ (if bees then [id_in_data] else [])"
proof -
  have ne: "id_in_data \<noteq> id_in_data @ '' pct''" by simp
  have fresh2: "id_in_data \<notin> fst ` set (sh @ [(id_in_data @ '' pct'', c)])" for c :: column
    using assms(2) ne by auto
  show "map fst (fst (header_step rnd cfg ns (id_in_data, title, showing, unit, bees, descr) (sh, bk)))
         = map fst sh @ (if id_in_data @ '' pct'' \<in> set ns then [id_in_data @ '' pct''] else []) @ [id_in_data]"
    using assms(1,2) fresh2
    by (simp add: header_step_def Let_def update_fresh)
  show "map fst (snd (header_step rnd cfg ns (id_in_data, title, showing, unit, bees, descr) (sh, bk)))
         = map fst bk @ (if bees then [id_in_data] else [])"
    using assms(3) by (simp add: header_step_def Let_def update_fresh)
qed

lemma headers_over_keys:
  assumes "distinct (map fst catalog)" and "\<forall>m \<in> set catalog. last (fst m) \<noteq> CHR ''t''"
  shows "map fst (fst (headers_over rnd cfg catalog ns))
           = concat (map (\<lambda>m. (if fst m @ '' pct'' \<in> set ns then [fst m @ '' pct''] else []) @ [fst m]) catalog)
       \<and> map fst (snd (headers_over rnd cfg catalog ns))
           = map fst (filter (\<lambda>(id_in_data, title, showing, unit, show_in_beeswarm, descr). show_in_beeswarm)
                        catalog)"
  using assms
proof (induction catalog rule: rev_induct)
  case Nil
  then show ?case by (simp add: headers_over_def)
next
  case (snoc m catalog)
  obtain id_in_data title showing unit bees descr where m: "m = (id_in_data, title, showing, unit, bees, descr)"
    by (cases m)
  let ?keys = "\<lambda>m. (if fst m @ '' pct'' \<in> set ns then [fst m @ '' pct''] else []) @ [fst m]"
  obtain sh bk where st: "headers_over rnd cfg catalog ns = (sh, bk)"
    by (cases "headers_over rnd cfg catalog ns")
  from snoc.prems have d: "distinct (map fst catalog)" and l: "\<forall>m \<in> set catalog. last (fst m) \<noteq> CHR ''t''"
    and new: "id_in_data \<notin> fst ` set catalog" and lm: "last id_in_data \<noteq> CHR ''t''"
    by (auto simp: m)
  from snoc.IH [OF d l] have sh: "map fst sh = concat (map ?keys catalog)"
    and bk: "map fst bk = map fst (filter (\<lambda>(id_in_data, title, showing, unit, show_in_beeswarm, descr).
                                          show_in_beeswarm) catalog)"
    by (simp_all add: st)
  have keys: "set (concat (map ?keys catalog)) \<subseteq> fst ` set catalog \<union> (\<lambda>m. fst m @ '' pct'') ` set catalog"
    by auto
  have f1: "id_in_data \<notin> fst ` set sh"
  proof
    assume "id_in_data \<in> fst ` set sh"
    then have "id_in_data \<in> set (map fst sh)" by simp
    with sh keys new obtain m' where "m' \<in> set catalog" "id_in_data = fst m' @ '' pct''" by auto
    with lm show False by simp
  qed
  have f2: "id_in_data @ '' pct'' \<notin> fst ` set sh"
  proof
    assume "id_in_data @ '' pct'' \<in> fst ` set sh"
    then have "id_in_data @ '' pct'' \<in> set (map fst sh)" by simp
    with sh keys consider m' where "m' \<in> set catalog" "id_in_data @ '' pct'' = fst m'"
      | m' where "m' \<in> set catalog" "id_in_data @ '' pct'' = fst m' @ '' pct''"
      by auto
    then show False
    proof cases
      case 1
      then have "last (fst m') = CHR ''t''" by (metis last_appendR last.simps list.distinct(1))
      with l 1(1) show False by blast
    next
      case 2
      then have "id_in_data = fst m'" by simp
      with new 2(1) show False by auto
    qed
  qed
  have f3: "id_in_data \<notin> fst ` set bk"
  proof
    assume "id_in_data \<in> fst ` set bk"
    then have "id_in_data \<in> set (map fst bk)" by simp
    with bk new show False by auto
  qed
  have step: "headers_over rnd cfg (catalog @ [m]) ns = header_step rnd cfg ns m (sh, bk)"
    by (simp add: headers_over_def st [unfolded headers_over_def])
  note hs = header_step_keys [OF f2 f1 f3, of rnd cfg ns title showing unit bees descr, folded m]
  have "map fst (fst (headers_over rnd cfg (catalog @ [m]) ns)) = concat (map ?keys (catalog @ [m]))"
    unfolding step hs(1) by (simp add: sh m)
  moreover have "map fst (snd (headers_over rnd cfg (catalog @ [m]) ns))
      = map fst (filter (\<lambda>(id_in_data, title, showing, unit, show_in_beeswarm, descr). show_in_beeswarm)
                   (catalog @ [m]))"
    unfolding step hs(2) by (simp add: bk m)
  ultimately show ?case by blast
qed

lemma add_names_set:
  "set (add_names rgs ns) = set ns \<union> (\<Union>(rg, r) \<in> set rgs. fst ` set r)"
proof -
  have inner: "set (foldl names_add ns ks) = set ns \<union> set ks" for ns ks
    by (induction ks arbitrary: ns) (auto simp: names_add_def)
  have "set (foldl (\<lambda>ns (rg, data). foldl names_add ns (map fst data)) ns rgs)
        = set ns \<union> (\<Union>(rg, r) \<in> set rgs. fst ` set r)"
  proof (induction rgs arbitrary: ns)
    case Nil
    then show ?case by simp
  next
    case (Cons a rgs)
    obtain rg r where a: "a = (rg, r)" by (cases a)
    show ?case by (simp add: a Cons.IH inner Un_assoc)
  qed
  then show ?thesis by (simp add: add_names_def)
qed

lemma names_loop_set:
  "set (fst (names_loop docs (ns, d)))
   = set ns \<union> (\<Union>(sn, rgs) \<in> set docs. \<Union>(rg, r) \<in> set rgs. fst ` set r)"
proof (induction docs arbitrary: ns d)
  case Nil
  then show ?case by simp
next
  case (Cons a docs)
  obtain sn rgs where a: "a = (sn, rgs)" by (cases a)
  show ?case by (simp add: a Cons.IH add_names_set Un_assoc)
qed

lemma catalog_distinct: "distinct (map fst MAPPING_METRICS)"
  by (simp add: MAPPING_METRICS_def)

lemma catalog_last: "\<forall>m \<in> set MAPPING_METRICS. last (fst m) \<noteq> CHR ''t''"
  by (simp add: MAPPING_METRICS_def)

text \<open>The example documents, evaluated stage by stage.\<close>

lemma rows_A:
  "parse_lines Fin (splitlines example_text_A) ([], [])
   = Inr ([(''RG1'', example_rg_A)], [(''tumor'', example_summary_A)])"
  by code_simp

lemma rows_B:
  "parse_lines Fin (splitlines example_text_B) ([], [])
   = Inr ([(''RG1'', example_rg_B)], [(''tumor'', example_summary_B)])"
  by code_simp

lemma name_A: "s_name_of ''A.mapping_metrics.csv'' = Inr ''A''"
  by code_simp

lemma name_B: "s_name_of ''B.mapping_metrics.csv'' = Inr ''B''"
  by code_simp

lemma fix_A: "fix_record Fin example_rg_A = Inr example_rg_A"
  by code_simp
lemma fix_B: "fix_record Fin example_rg_B = Inr example_rg_B"
  by code_simp
lemma fix_sA: "fix_record Fin example_summary_A = Inr example_summary_A"
  by code_simp
lemma fix_sB: "fix_record Fin example_summary_B = Inr example_summary_B"
  by code_simp

lemma parse_A:
  "parse_mapping_metrics_file Fin example_doc_A
   = Inr (''A'', [(''RG1'', example_rg_A)], [(''tumor'', example_summary_A)])"
  by (simp add: parse_mapping_metrics_file_def parse_rows_def example_doc_A_def rows_A name_A fix_A fix_sA)

lemma parse_B:
  "parse_mapping_metrics_file Fin example_doc_B
   = Inr (''B'', [(''RG1'', example_rg_B)], [(''tumor'', example_summary_B)])"
  by (simp add: parse_mapping_metrics_file_def parse_rows_def example_doc_B_def rows_B name_B fix_B fix_sB)

lemma parse_A_again:
  "parse_mapping_metrics_file Fin example_doc_A_again
   = Inr (''A'', [(''RG1'', example_rg_B)], [(''tumor'', example_summary_B)])"
  by (simp add: parse_mapping_metrics_file_def parse_rows_def example_doc_A_again_def rows_B name_A fix_B fix_sB)

lemma files_AB:
  "files_loop Fin [example_doc_A, example_doc_B] ([], [], [], [])
   = Inr ([(''A'', [(''RG1'', example_rg_A)]), (''B'', [(''RG1'', example_rg_B)])],
          [(''A'', [(''tumor'', example_summary_A)]), (''B'', [(''tumor'', example_summary_B)])],
          [(Debug, ''Duplicate read group name RG1 found for output prefix B! Overwriting'')],
          [])"
  by (simp add: parse_A parse_B dict_has_def duplicate_rg_log_def)

lemma files_AA:
  "files_loop Fin [example_doc_A, example_doc_A_again] ([], [], [], [])
   = Inr ([(''A'', [(''RG1'', example_rg_B)])],
          [(''A'', [(''tumor'', example_summary_B)])],
          [(Debug, ''Duplicate Dragen output prefix found! Overwriting: A''),
           (Debug, ''Duplicate read group name RG1 found for output prefix A! Overwriting'')],
          [''A.mapping_metrics.csv''])"
proof -
  have name: "fn example_doc_A_again = ''A.mapping_metrics.csv''"
    by (simp add: example_doc_A_again_def)
  show ?thesis
    by (simp add: parse_A parse_A_again dict_has_def duplicate_rg_log_def name)
qed

lemma parse_mapping_metrics_run:
  assumes files: "files_loop rnd files ([], [], [], []) = Inr (by_rg, by_ph, lg, srcs)"
      and d: "ignore_samples ignored by_rg = d" and ne: "d \<noteq> []"
      and prom: "maybe_add_general_metrics rnd sf cfg
                   (flatten_samples (ignore_samples ignored by_ph) [], info0) = Inr (ds, info)"
      and dup: "map_dup_read_chart rnd (snd (last d)) = Inr (dup, l1)"
      and pair: "map_pair_read_chart rnd (snd (last d)) = Inr (pair, l2)"
  shows "\<exists>r. parse_mapping_metrics rnd sf cfg ignored info0 files = Inr (Some r)
           \<and> rep_merged r = merge_read_groups d []
           \<and> rep_beeswarm_data r = snd (last d)
           \<and> rep_dup_chart r = dup
           \<and> rep_pair_chart r = pair
           \<and> rep_stats_data r = ds
           \<and> rep_header_info r = info"
proof -
  obtain ns where nl: "names_loop d ([], merge_read_groups d []) = (ns, snd (last d))"
    using names_loop_snd [of d "[]" "merge_read_groups d []"] ne
    by (cases "names_loop d ([], merge_read_groups d [])") auto
  obtain h b where hb: "make_mapping_stats_headers rnd cfg ns = (h, b)"
    by (cases "make_mapping_stats_headers rnd cfg ns")
  show ?thesis
    unfolding parse_mapping_metrics_def
    by (simp add: files d ne prom nl hb dup pair Let_def)
qed

lemma rows_C:
  "parse_lines Fin (splitlines example_text_C) ([], []) = Inr ([], [(''tumor'', example_raw_C)])"
  by code_simp

lemma name_C: "s_name_of ''C.mapping_metrics.csv'' = Inr ''C''"
  by code_simp

lemma fix_C: "fix_record Fin example_raw_C = Inr example_fixed_C"
  by code_simp

lemma parse_C:
  "parse_mapping_metrics_file Fin example_doc_C = Inr (''C'', [], [(''tumor'', example_fixed_C)])"
  by (simp add: parse_mapping_metrics_file_def parse_rows_def example_doc_C_def rows_C name_C fix_C)














section \<open>The promoter on a sample that lacks a general metric\<close>

text \<open>
  Claim C3. The claim says that the promoter deletes a promoted identifier only where
  it is present and never fails on a sample that lacks it. The code deletes with
  \<^verbatim>\<open>del data[metric]\<close> in every sample: with two samples, of which only the first has
  \<^verbatim>\<open>Provided sex chromosome ploidy\<close>, the set of values has one element, and the
  deletion raises \<^verbatim>\<open>KeyError\<close> at the second sample.
\<close>

theorem promoter_raises_where_metric_is_absent:
  "maybe_add_general_metrics Fin example_format example_config
     ([(''S1'', [(''Provided sex chromosome ploidy'', IntV 2), (''Total input reads'', IntV 1000)]),
       (''S2'', [(''Total input reads'', IntV 1000)])], None)
   = Inl (KeyError ''Provided sex chromosome ploidy'')"
  by code_simp

section \<open>Sample flattening\<close>

text \<open>
  Claim C10, as amended. In the flattening of lines 42 to 48, every phenotype tag other
  than \<^verbatim>\<open>normal\<close> gives the document's name unchanged as the sample name. So when a
  document has non-normal phenotype records, they are all stored under the document's
  name, and the merged per-sample mapping holds under that name the record of the
  last of them in iteration order, provided that no document processed later, whose
  name followed by \<^verbatim>\<open> normal\<close> is this document's name, has a \<^verbatim>\<open>normal\<close> phenotype
  (the documents are the items of a dictionary, so their names are distinct).
\<close>

theorem flattening_last_non_normal_wins:
  assumes "filter (\<lambda>(p, d). p \<noteq> ''normal'') by_phenotype \<noteq> []"
      and "distinct (map fst (earlier @ (sn, by_phenotype) # later))"
      and "\<forall>(sn', ps') \<in> set later. sn' @ '' normal'' = sn \<longrightarrow> ''normal'' \<notin> fst ` set ps'"
  shows "(\<forall>(p, d) \<in> set by_phenotype. p \<noteq> ''normal'' \<longrightarrow> new_sn sn p = sn)
       \<and> map_of (flatten_samples (earlier @ (sn, by_phenotype) # later) []) sn
           = Some (snd (last (filter (\<lambda>(p, d). p \<noteq> ''normal'') by_phenotype)))"
proof -
  from assms(2) have "sn \<notin> fst ` set later" by simp
  then have "\<forall>(sn', ps') \<in> set later. sn' \<noteq> sn" by force
  with assms(3) have "\<forall>(sn', ps') \<in> set later.
       (sn = sn' \<longrightarrow> (\<forall>p \<in> fst ` set ps'. p = ''normal''))
       \<and> (sn = sn' @ '' normal'' \<longrightarrow> ''normal'' \<notin> fst ` set ps')"
    by fastforce
  then have "map_of (flatten_samples later (flatten_doc sn by_phenotype (flatten_samples earlier []))) sn
        = map_of (flatten_doc sn by_phenotype (flatten_samples earlier [])) sn"
    by (rule flatten_samples_keep)
  then have "map_of (flatten_samples (earlier @ (sn, by_phenotype) # later) []) sn
        = map_of (flatten_doc sn by_phenotype (flatten_samples earlier [])) sn"
    by (simp add: flatten_samples_append)
  also have "\<dots> = Some (snd (last (filter (\<lambda>(p, d). p \<noteq> ''normal'') by_phenotype)))"
    using assms(1) by (simp add: flatten_doc_map_of split: list.splits)
  finally show ?thesis by (auto simp: new_sn_def)
qed

theorem flattening_last_non_normal_wins_witness:
  "new_sn ''S'' ''tumor'' = ''S'' \<and> new_sn ''S'' ''other'' = ''S''
   \<and> map_of (flatten_samples
        [(''S'', [(''tumor'', [(''Mapped reads'', IntV 1)]),
                  (''normal'', [(''Mapped reads'', IntV 2)]),
                  (''other'', [(''Mapped reads'', IntV 3)])]),
         (''T'', [(''tumor'', [(''Mapped reads'', IntV 4)])])] []) ''S''
       = Some [(''Mapped reads'', IntV 3)]"
proof -
  have h1: "filter (\<lambda>(p, d). p \<noteq> ''normal'')
              [(''tumor'', [(''Mapped reads'', IntV 1)]),
               (''normal'', [(''Mapped reads'', IntV 2)]),
               (''other'', [(''Mapped reads'', IntV (3::int))])] \<noteq> []"
    by simp
  have h2: "distinct (map fst ([] @ (''S'', [(''tumor'', [(''Mapped reads'', IntV 1)]),
               (''normal'', [(''Mapped reads'', IntV 2)]),
               (''other'', [(''Mapped reads'', IntV 3)])])
             # [(''T'', [(''tumor'', [(''Mapped reads'', IntV 4)])])]))"
    by simp
  have h3: "\<forall>(sn', ps') \<in> set [(''T'', [(''tumor'', [(''Mapped reads'', IntV 4)])])].
              sn' @ '' normal'' = ''S'' \<longrightarrow> ''normal'' \<notin> fst ` set ps'"
    by simp
  show ?thesis
    using flattening_last_non_normal_wins [OF h1 h2 h3]
    by (simp add: new_sn_def del: flatten_samples.simps)
qed

text \<open>
  Claim C10, as stated, fails when a later document writes the same sample name. A
  document called \<^verbatim>\<open>X normal\<close> has the phenotypes \<^verbatim>\<open>tumor\<close> and \<^verbatim>\<open>other\<close>, both stored
  under \<^verbatim>\<open>X normal\<close>; the next document is called \<^verbatim>\<open>X\<close> and has a \<^verbatim>\<open>normal\<close> phenotype,
  whose sample name is \<^verbatim>\<open>X normal\<close> too (line 46). The merged per-sample mapping holds
  under \<^verbatim>\<open>X normal\<close> the record of the second document, not that of the first
  document's last phenotype.
\<close>

theorem flattening_overwritten_by_later_document:
  "map_of (flatten_samples
        [(''X normal'', [(''tumor'', [(''Mapped reads'', IntV 1)]),
                         (''other'', [(''Mapped reads'', IntV 2)])]),
         (''X'', [(''normal'', [(''Mapped reads'', IntV 3)])])] []) ''X normal''
     = Some [(''Mapped reads'', IntV 3)]"
  by (simp add: new_sn_def)

section \<open>The merge of the read groups\<close>

text \<open>
  Claim C5, as amended. Take two documents with different names, processed in this
  order, each with its read groups under distinct identifiers, and a read-group
  identifier that both contain and that no read group of the second document is
  renamed to (never the case for \<^verbatim>\<open>RG1\<close>, which does not end in a parenthesis). Then
  the merged mapping of lines 55 to 60 holds the first document's record under the
  identifier, and the second document's record under the identifier followed by the
  second document's name in parentheses. And no record is overwritten in the merge,
  provided that for every identifier that the two documents share, the identifier
  followed by the second document's name in parentheses is not itself a read-group
  identifier of either document: then the merged mapping is the first document's read
  groups followed by the second document's, each under its own identifier or its
  renamed one, all keys distinct, as many entries as the two documents have read
  groups.
\<close>

theorem read_group_merge_renames_collision:
  assumes "distinct (map fst first_doc)" and "distinct (map fst second_doc)"
      and "map_of first_doc rg = Some a" and "map_of second_doc rg = Some b"
      and "\<forall>k \<in> fst ` set second_doc. k @ '' ('' @ second_name @ '')'' \<noteq> rg"
  shows "map_of (merge_read_groups [(first_name, first_doc), (second_name, second_doc)] []) rg = Some a
       \<and> map_of (merge_read_groups [(first_name, first_doc), (second_name, second_doc)] [])
            (rg @ '' ('' @ second_name @ '')'') = Some b
       \<and> ((\<forall>k \<in> fst ` set second_doc. dict_has first_doc k \<longrightarrow>
               k @ '' ('' @ second_name @ '')'' \<notin> fst ` set first_doc \<union> fst ` set second_doc)
            \<longrightarrow> merge_read_groups [(first_name, first_doc), (second_name, second_doc)] []
                  = first_doc @ map (\<lambda>(k, d). (renamed first_doc second_name k, d)) second_doc
                \<and> distinct (map fst (merge_read_groups
                                        [(first_name, first_doc), (second_name, second_doc)] []))
                \<and> length (merge_read_groups [(first_name, first_doc), (second_name, second_doc)] [])
                    = length first_doc + length second_doc)"
proof -
  have first: "merge_doc first_name first_doc [] = first_doc"
    using assms(1) by (simp add: merge_doc_fresh)
  have mem: "rg \<in> fst ` set first_doc"
    using map_of_SomeD [OF assms(3)] by force
  have 1: "map_of (merge_doc second_name second_doc first_doc) rg = map_of first_doc rg"
    using mem assms(5) by (rule merge_doc_keeps)
  have 2: "map_of (merge_doc second_name second_doc first_doc) (rg @ '' ('' @ second_name @ '')'') = Some b"
    using assms(2,4) mem by (rule merge_doc_renamed)
  have 3: "merge_doc second_name second_doc first_doc
             = first_doc @ map (\<lambda>(k, d). (renamed first_doc second_name k, d)) second_doc"
    if "\<forall>k \<in> fst ` set second_doc. dict_has first_doc k \<longrightarrow>
               k @ '' ('' @ second_name @ '')'' \<notin> fst ` set first_doc \<union> fst ` set second_doc"
    using merge_doc_all_kept [OF that subset_refl assms(2)] .
  have 4: "distinct (map fst (merge_doc second_name second_doc first_doc))"
    using assms(1) by (rule merge_doc_distinct)
  have 5: "length (merge_doc second_name second_doc first_doc) = length first_doc + length second_doc"
    if "\<forall>k \<in> fst ` set second_doc. dict_has first_doc k \<longrightarrow>
               k @ '' ('' @ second_name @ '')'' \<notin> fst ` set first_doc \<union> fst ` set second_doc"
    unfolding 3 [OF that] by simp
  have m: "merge_read_groups [(first_name, first_doc), (second_name, second_doc)] []
             = merge_doc second_name second_doc first_doc"
    by (simp add: first)
  show ?thesis
    unfolding m using 1 2 3 4 5 assms(3) by metis
qed

theorem read_group_merge_renames_collision_witness:
  "merge_read_groups
       [(''A'', [(''RG1'', [(''Total reads in RG'', IntV 10)]),
                 (''RG2'', [(''Total reads in RG'', IntV 11)])]),
        (''B'', [(''RG1'', [(''Total reads in RG'', IntV 20)]),
                 (''RG3'', [(''Total reads in RG'', IntV 21)])])] []
     = [(''RG1'', [(''Total reads in RG'', IntV 10)]),
        (''RG2'', [(''Total reads in RG'', IntV 11)]),
        (''RG1 (B)'', [(''Total reads in RG'', IntV 20)]),
        (''RG3'', [(''Total reads in RG'', IntV 21)])]
   \<and> map_of (merge_read_groups
       [(''A'', [(''RG1'', [(''Total reads in RG'', IntV 10)]),
                 (''RG2'', [(''Total reads in RG'', IntV 11)])]),
        (''B'', [(''RG1'', [(''Total reads in RG'', IntV 20)]),
                 (''RG3'', [(''Total reads in RG'', IntV 21)])])] []) ''RG1''
     = Some [(''Total reads in RG'', IntV 10)]
   \<and> map_of (merge_read_groups
       [(''A'', [(''RG1'', [(''Total reads in RG'', IntV 10)]),
                 (''RG2'', [(''Total reads in RG'', IntV 11)])]),
        (''B'', [(''RG1'', [(''Total reads in RG'', IntV 20)]),
                 (''RG3'', [(''Total reads in RG'', IntV 21)])])] []) ''RG1 (B)''
     = Some [(''Total reads in RG'', IntV 20)]"
proof -
  let ?A = "[(''RG1'', [(''Total reads in RG'', IntV 10)]),
             (''RG2'', [(''Total reads in RG'', IntV 11)])]"
  let ?B = "[(''RG1'', [(''Total reads in RG'', IntV 20)]),
             (''RG3'', [(''Total reads in RG'', IntV 21)])]"
  have h1: "distinct (map fst ?A)" by simp
  have h2: "distinct (map fst ?B)" by simp
  have h3: "map_of ?A ''RG1'' = Some [(''Total reads in RG'', IntV 10)]" by simp
  have h4: "map_of ?B ''RG1'' = Some [(''Total reads in RG'', IntV 20)]" by simp
  have h5: "\<forall>k \<in> fst ` set ?B. k @ '' ('' @ ''B'' @ '')'' \<noteq> ''RG1''" by simp
  have side: "\<forall>k \<in> fst ` set ?B. dict_has ?A k \<longrightarrow>
               k @ '' ('' @ ''B'' @ '')'' \<notin> fst ` set ?A \<union> fst ` set ?B"
    by (simp add: dict_has_def)
  have ren: "map (\<lambda>(k, d). (renamed ?A ''B'' k, d)) ?B
             = [(''RG1 (B)'', [(''Total reads in RG'', IntV 20)]),
                (''RG3'', [(''Total reads in RG'', IntV 21)])]"
    by (simp add: renamed_def dict_has_def)
  from read_group_merge_renames_collision [OF h1 h2 h3 h4 h5, of "''A''"] side
  have "map_of (merge_read_groups [(''A'', ?A), (''B'', ?B)] []) ''RG1''
          = Some [(''Total reads in RG'', IntV 10)]"
    and "map_of (merge_read_groups [(''A'', ?A), (''B'', ?B)] []) (''RG1'' @ '' ('' @ ''B'' @ '')'')
          = Some [(''Total reads in RG'', IntV 20)]"
    and "merge_read_groups [(''A'', ?A), (''B'', ?B)] []
          = ?A @ map (\<lambda>(k, d). (renamed ?A ''B'' k, d)) ?B"
    by blast+
  then show ?thesis
    unfolding ren by (simp del: merge_read_groups.simps)
qed

section \<open>What the charts and the beeswarm plot receive\<close>

text \<open>
  Claim C1. The claim says that the two charts and the beeswarm plot are computed over
  the merged per-read-group mapping, so that no document's read groups are left out.
  In the code the loop of line 64 binds the name \<^verbatim>\<open>data_by_rg\<close> again, so after it the
  name holds the read groups of the last document only, and that is what lines 74, 75
  and 83 pass on. For the two example documents \<^verbatim>\<open>A\<close> and \<^verbatim>\<open>B\<close>, each with a read group
  \<^verbatim>\<open>RG1\<close>, the merged mapping has the two entries \<^verbatim>\<open>RG1\<close> and \<^verbatim>\<open>RG1 (B)\<close>, and the
  three views get the single read group of \<^verbatim>\<open>B\<close>.
\<close>

theorem views_read_last_document_only:
  "(case parse_mapping_metrics Fin example_format example_config nothing_ignored None
           [example_doc_A, example_doc_B] of
      Inr (Some r) \<Rightarrow> Some (rep_merged r, rep_beeswarm_data r, rep_dup_chart r, rep_pair_chart r)
    | _ \<Rightarrow> None)
   = Some ([(''RG1'', example_rg_A), (''RG1 (B)'', example_rg_B)],
           [(''RG1'', example_rg_B)], [(''RG1'', example_rg_B)], [(''RG1'', example_rg_B)])"
proof -
  have ign: "ignore_samples nothing_ignored
               [(''A'', [(''RG1'', example_rg_A)]), (''B'', [(''RG1'', example_rg_B)])]
             = [(''A'', [(''RG1'', example_rg_A)]), (''B'', [(''RG1'', example_rg_B)])]"
    by (simp add: ignore_samples_def nothing_ignored_def)
  have prom: "maybe_add_general_metrics Fin example_format example_config
                (flatten_samples (ignore_samples nothing_ignored
                   [(''A'', [(''tumor'', example_summary_A)]), (''B'', [(''tumor'', example_summary_B)])]) [],
                 None)
              = Inr ([(''A'', example_summary_A), (''B'', example_summary_B)], None)"
    by code_simp
  have dup: "map_dup_read_chart Fin [(''RG1'', example_rg_B)] = Inr ([(''RG1'', example_rg_B)], [])"
    by code_simp
  have pair: "map_pair_read_chart Fin [(''RG1'', example_rg_B)] = Inr ([(''RG1'', example_rg_B)], [])"
    by code_simp
  have mrg: "merge_read_groups [(''A'', [(''RG1'', example_rg_A)]), (''B'', [(''RG1'', example_rg_B)])] []
             = [(''RG1'', example_rg_A), (''RG1 (B)'', example_rg_B)]"
    by (simp add: dict_has_def)
  have last: "snd (last [(''A'', [(''RG1'', example_rg_A)]), (''B'', [(''RG1'', example_rg_B)])])
              = [(''RG1'', example_rg_B)]"
    by simp
  obtain r where r: "parse_mapping_metrics Fin example_format example_config nothing_ignored None
           [example_doc_A, example_doc_B] = Inr (Some r)"
     "rep_merged r = merge_read_groups [(''A'', [(''RG1'', example_rg_A)]), (''B'', [(''RG1'', example_rg_B)])] []"
     "rep_beeswarm_data r = [(''RG1'', example_rg_B)]"
     "rep_dup_chart r = [(''RG1'', example_rg_B)]"  "rep_pair_chart r = [(''RG1'', example_rg_B)]"
    using parse_mapping_metrics_run [OF files_AB ign _ prom, unfolded last, OF _ dup pair]
    by auto
  show ?thesis
    by (simp add: r dict_has_def)
qed

text \<open>
  Claim C5, as stated, fails in two ways. First, two files with the same name
  \<^verbatim>\<open>A.mapping_metrics.csv\<close> (found in two directories): the second replaces the first
  under the output prefix \<^verbatim>\<open>A\<close> (line 32), so the merged mapping holds the second
  file's record under \<^verbatim>\<open>RG1\<close> and has no key \<^verbatim>\<open>RG1 (A)\<close>. Second, the renamed key is
  not checked: when the first document also has a read group called \<^verbatim>\<open>RG1 (B)\<close>, the
  record of the second document's \<^verbatim>\<open>RG1\<close> overwrites it.
\<close>

theorem read_group_merge_counterexample:
  "(case parse_mapping_metrics Fin example_format example_config nothing_ignored None
           [example_doc_A, example_doc_A_again] of
      Inr (Some r) \<Rightarrow> Some (rep_merged r)
    | _ \<Rightarrow> None)
   = Some [(''RG1'', example_rg_B)]
   \<and> example_rg_B \<noteq> example_rg_A
   \<and> merge_read_groups
        [(''A'', [(''RG1'', [(''Total reads in RG'', IntV 10)]),
                  (''RG1 (B)'', [(''Total reads in RG'', IntV 11)])]),
         (''B'', [(''RG1'', [(''Total reads in RG'', IntV 20)])])] []
      = [(''RG1'', [(''Total reads in RG'', IntV 10)]),
         (''RG1 (B)'', [(''Total reads in RG'', IntV 20)])]"
proof -
  have ign: "ignore_samples nothing_ignored [(''A'', [(''RG1'', example_rg_B)])]
             = [(''A'', [(''RG1'', example_rg_B)])]"
    by (simp add: ignore_samples_def nothing_ignored_def)
  have prom: "maybe_add_general_metrics Fin example_format example_config
                (flatten_samples (ignore_samples nothing_ignored
                   [(''A'', [(''tumor'', example_summary_B)])]) [], None)
              = Inr ([(''A'', example_summary_B)], None)"
    by code_simp
  have dup: "map_dup_read_chart Fin [(''RG1'', example_rg_B)] = Inr ([(''RG1'', example_rg_B)], [])"
    by code_simp
  have pair: "map_pair_read_chart Fin [(''RG1'', example_rg_B)] = Inr ([(''RG1'', example_rg_B)], [])"
    by code_simp
  have last: "snd (last [(''A'', [(''RG1'', example_rg_B)])]) = [(''RG1'', example_rg_B)]"
    by simp
  obtain r where r: "parse_mapping_metrics Fin example_format example_config nothing_ignored None
           [example_doc_A, example_doc_A_again] = Inr (Some r)"
     "rep_merged r = merge_read_groups [(''A'', [(''RG1'', example_rg_B)])] []"
    using parse_mapping_metrics_run [OF files_AA ign _ prom, unfolded last, OF _ dup pair]
    by auto
  have ne: "example_rg_B \<noteq> example_rg_A"
    by (simp add: example_rg_A_def example_rg_B_def ints_def)
  show ?thesis
    by (simp add: r ne dict_has_def)
qed

section \<open>The duplication chart\<close>

text \<open>
  Claim C4. When \<^verbatim>\<open>__map_dup_read_chart\<close> returns, every entity of its \<^verbatim>\<open>chart_data\<close> is an
  entity of its input for which the sum, with Python's \<^verbatim>\<open>+\<close>, of
  \<^verbatim>\<open>Number of unique & mapped reads (excl. duplicate marked reads)\<close>,
  \<^verbatim>\<open>Number of duplicate marked reads\<close> and \<^verbatim>\<open>Unmapped reads\<close> equals, with Python's \<^verbatim>\<open>==\<close>,
  \<^verbatim>\<open>Total reads in RG\<close>; for integer counts that is the equality of integers. For every
  entity of the input that is absent from \<^verbatim>\<open>chart_data\<close> the equality is false, and the
  warning that names the entity was logged.
\<close>

theorem duplication_view_reconciles:
  assumes "map_dup_read_chart rnd data = Inr (chart_data, lg)"
  shows "(\<forall>(sample_id, r) \<in> set chart_data.
            (sample_id, r) \<in> set data
            \<and> (\<exists>a b c t s1 s.
                  dict_get r UNIQUE_MAPPED = Inr a \<and> dict_get r DUP_MARKED = Inr b
                  \<and> dict_get r UNMAPPED = Inr c \<and> dict_get r TOTAL_READS_IN_RG = Inr t
                  \<and> py_add rnd a b = Inr s1 \<and> py_add rnd s1 c = Inr s \<and> py_eq s t)
            \<and> (\<forall>a b c t.
                  dict_get r UNIQUE_MAPPED = Inr (IntV a) \<and> dict_get r DUP_MARKED = Inr (IntV b)
                  \<and> dict_get r UNMAPPED = Inr (IntV c) \<and> dict_get r TOTAL_READS_IN_RG = Inr (IntV t)
                  \<longrightarrow> a + b + c = t))
       \<and> (\<forall>(sample_id, r) \<in> set data.
            sample_id \<notin> fst ` set chart_data \<longrightarrow>
              (\<exists>a b c t s1 s.
                  dict_get r UNIQUE_MAPPED = Inr a \<and> dict_get r DUP_MARKED = Inr b
                  \<and> dict_get r UNMAPPED = Inr c \<and> dict_get r TOTAL_READS_IN_RG = Inr t
                  \<and> py_add rnd a b = Inr s1 \<and> py_add rnd s1 c = Inr s \<and> \<not> py_eq s t)
              \<and> (\<forall>a b c t.
                  dict_get r UNIQUE_MAPPED = Inr (IntV a) \<and> dict_get r DUP_MARKED = Inr (IntV b)
                  \<and> dict_get r UNMAPPED = Inr (IntV c) \<and> dict_get r TOTAL_READS_IN_RG = Inr (IntV t)
                  \<longrightarrow> a + b + c \<noteq> t)
              \<and> (Warning, dup_warning @ sample_id) \<in> set lg)"
proof -
  from assms have loop: "chart_loop rnd dup_parts dup_warning data ([], []) = Inr (chart_data, lg)"
    by (simp add: map_dup_read_chart_def)
  note inv = chart_loop_inv [OF loop]
  have in_chart: "(s, r) \<in> set data \<and> mismatch rnd dup_parts r = Inr False"
    if "(s, r) \<in> set chart_data" for s r
    using inv that by auto
  have out_chart: "mismatch rnd dup_parts r = Inr True \<and> (Warning, dup_warning @ s) \<in> set lg"
    if "(s, r) \<in> set data" "s \<notin> fst ` set chart_data" for s r
    using inv that by auto
  show ?thesis
  proof (intro conjI ballI)
    fix x assume x: "x \<in> set chart_data"
    obtain s r where sr: "x = (s, r)" by (cases x)
    from in_chart [of s r] x sr have "(s, r) \<in> set data" and m: "mismatch rnd dup_parts r = Inr False"
      by auto
    from m obtain a b c t s1 sm where v: "dict_get r UNIQUE_MAPPED = Inr a" "dict_get r DUP_MARKED = Inr b"
        "py_add rnd a b = Inr s1" "dict_get r UNMAPPED = Inr c" "py_add rnd s1 c = Inr sm"
        "dict_get r TOTAL_READS_IN_RG = Inr t" "py_eq sm t"
      unfolding mismatch_dup by (auto simp: py_ne_def)
    have ints: "a' + b' + c' = t'"
      if "dict_get r UNIQUE_MAPPED = Inr (IntV a')" "dict_get r DUP_MARKED = Inr (IntV b')"
         "dict_get r UNMAPPED = Inr (IntV c')" "dict_get r TOTAL_READS_IN_RG = Inr (IntV t')"
      for a' b' c' t'
      using v that by auto
    show "case x of (sample_id, r) \<Rightarrow>
            (sample_id, r) \<in> set data
            \<and> (\<exists>a b c t s1 s.
                  dict_get r UNIQUE_MAPPED = Inr a \<and> dict_get r DUP_MARKED = Inr b
                  \<and> dict_get r UNMAPPED = Inr c \<and> dict_get r TOTAL_READS_IN_RG = Inr t
                  \<and> py_add rnd a b = Inr s1 \<and> py_add rnd s1 c = Inr s \<and> py_eq s t)
            \<and> (\<forall>a b c t.
                  dict_get r UNIQUE_MAPPED = Inr (IntV a) \<and> dict_get r DUP_MARKED = Inr (IntV b)
                  \<and> dict_get r UNMAPPED = Inr (IntV c) \<and> dict_get r TOTAL_READS_IN_RG = Inr (IntV t)
                  \<longrightarrow> a + b + c = t)"
      using \<open>(s, r) \<in> set data\<close> v ints unfolding sr by blast
  next
    fix x assume x: "x \<in> set data"
    obtain s r where sr: "x = (s, r)" by (cases x)
    have "(\<exists>a b c t s1 sm.
                  dict_get r UNIQUE_MAPPED = Inr a \<and> dict_get r DUP_MARKED = Inr b
                  \<and> dict_get r UNMAPPED = Inr c \<and> dict_get r TOTAL_READS_IN_RG = Inr t
                  \<and> py_add rnd a b = Inr s1 \<and> py_add rnd s1 c = Inr sm \<and> \<not> py_eq sm t)
              \<and> (\<forall>a b c t.
                  dict_get r UNIQUE_MAPPED = Inr (IntV a) \<and> dict_get r DUP_MARKED = Inr (IntV b)
                  \<and> dict_get r UNMAPPED = Inr (IntV c) \<and> dict_get r TOTAL_READS_IN_RG = Inr (IntV t)
                  \<longrightarrow> a + b + c \<noteq> t)
              \<and> (Warning, dup_warning @ s) \<in> set lg"
      if out: "s \<notin> fst ` set chart_data"
    proof -
      from out_chart [of s r] x sr out
      have m: "mismatch rnd dup_parts r = Inr True" and w: "(Warning, dup_warning @ s) \<in> set lg"
        by auto
      from m obtain a b c t s1 sm where v: "dict_get r UNIQUE_MAPPED = Inr a" "dict_get r DUP_MARKED = Inr b"
        "py_add rnd a b = Inr s1" "dict_get r UNMAPPED = Inr c" "py_add rnd s1 c = Inr sm"
        "dict_get r TOTAL_READS_IN_RG = Inr t" "\<not> py_eq sm t"
        unfolding mismatch_dup by (auto simp: py_ne_def)
      have ints: "a' + b' + c' \<noteq> t'"
        if "dict_get r UNIQUE_MAPPED = Inr (IntV a')" "dict_get r DUP_MARKED = Inr (IntV b')"
         "dict_get r UNMAPPED = Inr (IntV c')" "dict_get r TOTAL_READS_IN_RG = Inr (IntV t')"
        for a' b' c' t'
        using v that by auto
      show ?thesis using v ints w by blast
    qed
    then show "case x of (sample_id, r) \<Rightarrow>
            sample_id \<notin> fst ` set chart_data \<longrightarrow>
              (\<exists>a b c t s1 s.
                  dict_get r UNIQUE_MAPPED = Inr a \<and> dict_get r DUP_MARKED = Inr b
                  \<and> dict_get r UNMAPPED = Inr c \<and> dict_get r TOTAL_READS_IN_RG = Inr t
                  \<and> py_add rnd a b = Inr s1 \<and> py_add rnd s1 c = Inr s \<and> \<not> py_eq s t)
              \<and> (\<forall>a b c t.
                  dict_get r UNIQUE_MAPPED = Inr (IntV a) \<and> dict_get r DUP_MARKED = Inr (IntV b)
                  \<and> dict_get r UNMAPPED = Inr (IntV c) \<and> dict_get r TOTAL_READS_IN_RG = Inr (IntV t)
                  \<longrightarrow> a + b + c \<noteq> t)
              \<and> (Warning, dup_warning @ sample_id) \<in> set lg"
      unfolding sr by simp
  qed
qed

theorem duplication_view_reconciles_witness:
  "map_dup_read_chart Fin [(''RG1'', example_reconciled), (''RG2'', example_unreconciled)]
     = Inr ([(''RG1'', example_reconciled)], [(Warning, dup_warning @ ''RG2'')])
   \<and> (\<exists>a b c t s1 s.
         dict_get example_reconciled UNIQUE_MAPPED = Inr a
         \<and> dict_get example_reconciled DUP_MARKED = Inr b
         \<and> dict_get example_reconciled UNMAPPED = Inr c
         \<and> dict_get example_reconciled TOTAL_READS_IN_RG = Inr t
         \<and> py_add Fin a b = Inr s1 \<and> py_add Fin s1 c = Inr s \<and> py_eq s t)
   \<and> (\<exists>a b c t s1 s.
         dict_get example_unreconciled UNIQUE_MAPPED = Inr a
         \<and> dict_get example_unreconciled DUP_MARKED = Inr b
         \<and> dict_get example_unreconciled UNMAPPED = Inr c
         \<and> dict_get example_unreconciled TOTAL_READS_IN_RG = Inr t
         \<and> py_add Fin a b = Inr s1 \<and> py_add Fin s1 c = Inr s \<and> \<not> py_eq s t)"
proof -
  have run: "map_dup_read_chart Fin [(''RG1'', example_reconciled), (''RG2'', example_unreconciled)]
     = Inr ([(''RG1'', example_reconciled)], [(Warning, dup_warning @ ''RG2'')])"
    by code_simp
  show ?thesis
    using duplication_view_reconciles [OF run] run by simp
qed

section \<open>The post-parse fixups\<close>

text \<open>
  Claim C7. When \<^verbatim>\<open>parse_mapping_metrics_file\<close> returns, every record it produces, per read
  group and per phenotype, is the record that the rows gave for the same entity with
  the fixups applied: an unavailable count of duplicate marked reads and an unavailable
  count of duplicate marked and mate reads removed are zero; an unavailable count of
  unique reads has the record's value of \<^verbatim>\<open>Mapped reads\<close>; when \<^verbatim>\<open>Total alignments\<close> is
  greater than zero the record has \<^verbatim>\<open>Secondary alignments pct\<close>, the secondary alignments
  divided by the total alignments, times 100; when \<^verbatim>\<open>Total bases\<close> is greater than zero
  it has the three derived percentages, each the base count divided by the total
  bases, times 100.
\<close>

theorem fixups_on_every_record:
  assumes "parse_mapping_metrics_file rnd f = Inr (s_name, by_readgroup, by_phenotype)"
  shows "\<exists>rg0 ph0. parse_rows rnd f = Inr (rg0, ph0)
           \<and> list_all2 (\<lambda>(e, d) (e', d'). e' = e \<and> fixups_applied rnd d d')
                (rg0 @ ph0) (by_readgroup @ by_phenotype)"
proof -
  from assms obtain rg0 ph0 where rows: "parse_rows rnd f = Inr (rg0, ph0)"
    and rg: "fix_records rnd rg0 = Inr by_readgroup" and ph: "fix_records rnd ph0 = Inr by_phenotype"
    by (auto simp: parse_mapping_metrics_file_def ebind_eq_Inr)
  have "list_all2 (\<lambda>(e, d) (e', d'). e' = e \<and> fixups_applied rnd d d') ds ds'"
    if "fix_records rnd ds = Inr ds'" for ds ds'
    using fix_records_Inr [OF that]
    by (rule list_all2_mono) (auto intro: fix_record_fixups)
  from this [OF rg] this [OF ph] rows show ?thesis
    by (blast intro: list_all2_appendI)
qed

theorem fixups_on_every_record_witness:
  "parse_mapping_metrics_file Fin example_doc_C = Inr (''C'', [], [(''tumor'', example_fixed_C)])
   \<and> parse_rows Fin example_doc_C = Inr ([], [(''tumor'', example_raw_C)])
   \<and> fixups_applied Fin example_raw_C example_fixed_C
   \<and> dict_get example_raw_C DUP_MARKED = Inr NA
   \<and> dict_get example_fixed_C DUP_MARKED = Inr (IntV 0)
   \<and> dict_get example_raw_C UNIQUE_READS = Inr NA
   \<and> dict_get example_fixed_C UNIQUE_READS = Inr (IntV 90)
   \<and> dict_get example_fixed_C ''Secondary alignments pct'' = Inr (FloatV (Fin 25))"
proof -
  have rows: "parse_rows Fin example_doc_C = Inr ([], [(''tumor'', example_raw_C)])"
    by (simp add: parse_rows_def example_doc_C_def rows_C)
  from fixups_on_every_record [OF parse_C] rows have "fixups_applied Fin example_raw_C example_fixed_C"
    by simp
  moreover have "dict_get example_raw_C DUP_MARKED = Inr NA"
      "dict_get example_fixed_C DUP_MARKED = Inr (IntV 0)"
      "dict_get example_raw_C UNIQUE_READS = Inr NA"
      "dict_get example_fixed_C UNIQUE_READS = Inr (IntV 90)"
      "dict_get example_fixed_C ''Secondary alignments pct'' = Inr (FloatV (Fin 25))"
    by code_simp+
  ultimately show ?thesis using parse_C rows by simp
qed

section \<open>A record without a metric that the fixups read\<close>




section \<open>The coercion of the value field\<close>



section \<open>The promotion invariant\<close>

text \<open>
  Claim C2. When \<^verbatim>\<open>maybe_add_general_metrics\<close> returns, every identifier of
  \<^verbatim>\<open>GENERAL_METRICS\<close> is either absent from the record of every sample, or present in
  the records of two different samples with two values that Python's \<^verbatim>\<open>==\<close> tells
  apart; so no general metric that has exactly one distinct value across the samples
  remains in a record. The two values are distinct as the elements of the \<^verbatim>\<open>set\<close> of
  line 153 are: by \<^verbatim>\<open>==\<close>.
\<close>

theorem promotion_invariant:
  assumes run: "maybe_add_general_metrics rnd str_format cfg (data, info) = Inr (data', info')"
      and m: "m \<in> set general_ids"
  shows "(\<forall>(s, r) \<in> set data'. \<not> dict_has r m)
       \<or> (\<exists>s1 r1 v1 s2 r2 v2. s1 \<noteq> s2 \<and> (s1, r1) \<in> set data' \<and> (s2, r2) \<in> set data'
             \<and> (m, v1) \<in> set r1 \<and> (m, v2) \<in> set r2 \<and> \<not> py_eq v1 v2)"
proof -
  let ?g = "collect_general data []"
  let ?al = "dd_get ?g m"
  let ?keep = "\<lambda>kv. \<not> (fst kv \<in> set general_ids \<and> length (py_set (map snd (dd_get ?g (fst kv)))) = 1)"
  from run have d': "data' = map (\<lambda>sr. (fst sr, filter ?keep (snd sr))) data"
    using promote_metrics_Inr [of rnd str_format cfg ?g "GENERAL_METRICS rnd cfg" data info data' info']
    by (simp add: maybe_add_general_metrics_def general_ids_catalog)
  consider "length (py_set (map snd ?al)) = 1" | "py_set (map snd ?al) = []"
    | "2 \<le> length (py_set (map snd ?al))"
    by (cases "py_set (map snd ?al)") (auto simp: Suc_le_eq)
  then show ?thesis
  proof cases
    case 1
    have "\<not> dict_has r' m" if "(s, r') \<in> set data'" for s r'
    proof -
      from that obtain r where "r' = filter ?keep r" by (auto simp: d')
      then have "m \<notin> fst ` set r'" using 1 m by auto
      then show ?thesis by (simp add: dict_has_iff)
    qed
    then show ?thesis by blast
  next
    case 2
    then have empty: "?al = []" using py_set_empty [of "map snd ?al"] by simp
    have "\<not> dict_has r' m" if "(s, r') \<in> set data'" for s r'
    proof
      assume "dict_has r' m"
      then obtain v where v: "(m, v) \<in> set r'" by (auto simp: dict_has_iff)
      from that obtain r where r: "(s, r) \<in> set data" "r' = filter ?keep r" by (auto simp: d')
      with v have "(m, v) \<in> set r" by simp
      from collect_general_keys [OF r(1) this m, of "[]"] empty show False by simp
    qed
    then show ?thesis by blast
  next
    case 3
    from py_set_two [OF 3] obtain i j where ij: "i < j" "j < length ?al"
      and ne: "\<not> py_eq (snd (?al ! i)) (snd (?al ! j))"
      by auto
    have dist: "distinct (map fst ?al)"
      by (rule collect_general_distinct) (simp add: dd_get_def)
    obtain s1 v1 where e1: "?al ! i = (s1, v1)" by (cases "?al ! i")
    obtain s2 v2 where e2: "?al ! j = (s2, v2)" by (cases "?al ! j")
    have "i < length (map fst ?al)" "j < length (map fst ?al)" "i \<noteq> j" using ij by simp_all
    with dist have "map fst ?al ! i \<noteq> map fst ?al ! j"
      by (simp only: nth_eq_iff_index_eq not_False_eq_True)
    then have s12: "s1 \<noteq> s2" using ij e1 e2 by simp
    have "(s1, v1) \<in> set ?al" "(s2, v2) \<in> set ?al"
      using ij e1 e2 nth_mem [of i ?al] nth_mem [of j ?al] by simp_all
    then obtain r1 r2 where r1: "(s1, r1) \<in> set data" "(m, v1) \<in> set r1"
      and r2: "(s2, r2) \<in> set data" "(m, v2) \<in> set r2"
      using collect_general_mem [of s1 v1 data "[]" m] collect_general_mem [of s2 v2 data "[]" m]
      by (auto simp: dd_get_def)
    have keep: "?keep (m, v)" for v using 3 by simp
    have "(s1, filter ?keep r1) \<in> set data'" "(s2, filter ?keep r2) \<in> set data'"
      using r1(1) r2(1) by (force simp: d')+
    moreover have "(m, v1) \<in> set (filter ?keep r1)" "(m, v2) \<in> set (filter ?keep r2)"
      using r1(2) r2(2) keep by simp_all
    moreover have "\<not> py_eq v1 v2" using ne e1 e2 by simp
    ultimately show ?thesis using s12 by blast
  qed
qed


theorem promotion_invariant_witness:
  "maybe_add_general_metrics Fin example_format example_config
     ([(''S1'', [(''Bases in reference genome'', IntV 3000), (''Provided sex chromosome ploidy'', IntV 2),
                 (''Total input reads'', IntV 1000)]),
       (''S2'', [(''Bases in reference genome'', IntV 3000), (''Provided sex chromosome ploidy'', IntV 3),
                 (''Total input reads'', IntV 2000)])], None)
   = Inr ([(''S1'', [(''Provided sex chromosome ploidy'', IntV 2), (''Total input reads'', IntV 1000)]),
           (''S2'', [(''Provided sex chromosome ploidy'', IntV 3), (''Total input reads'', IntV 2000)])],
          Some [(''Bases in ref. genome:'', ''{:,.1f}&nbsp;&nbsp;Mb'')])
   \<and> (\<exists>s1 r1 v1 s2 r2 v2. s1 \<noteq> s2
         \<and> (s1, r1) \<in> set [(''S1'', [(''Provided sex chromosome ploidy'', IntV 2), (''Total input reads'', IntV 1000)]),
                            (''S2'', [(''Provided sex chromosome ploidy'', IntV 3), (''Total input reads'', IntV 2000)])]
         \<and> (s2, r2) \<in> set [(''S1'', [(''Provided sex chromosome ploidy'', IntV 2), (''Total input reads'', IntV 1000)]),
                            (''S2'', [(''Provided sex chromosome ploidy'', IntV 3), (''Total input reads'', IntV 2000)])]
         \<and> (''Provided sex chromosome ploidy'', v1) \<in> set r1
         \<and> (''Provided sex chromosome ploidy'', v2) \<in> set r2 \<and> \<not> py_eq v1 v2)"
proof -
  let ?data' = "[(''S1'', [(''Provided sex chromosome ploidy'', IntV 2), (''Total input reads'', IntV 1000)]),
                 (''S2'', [(''Provided sex chromosome ploidy'', IntV 3), (''Total input reads'', IntV 2000)])]"
  have run: "maybe_add_general_metrics Fin example_format example_config
     ([(''S1'', [(''Bases in reference genome'', IntV 3000), (''Provided sex chromosome ploidy'', IntV 2),
                 (''Total input reads'', IntV 1000)]),
       (''S2'', [(''Bases in reference genome'', IntV 3000), (''Provided sex chromosome ploidy'', IntV 3),
                 (''Total input reads'', IntV 2000)])], None)
   = Inr (?data', Some [(''Bases in ref. genome:'', ''{:,.1f}&nbsp;&nbsp;Mb'')])"
    by code_simp
  have m: "''Provided sex chromosome ploidy'' \<in> set general_ids"
    by (simp add: general_ids_def)
  have present: "\<not> (\<forall>(s, r) \<in> set ?data'. \<not> dict_has r ''Provided sex chromosome ploidy'')"
    by (simp add: dict_has_def)
  from promotion_invariant [OF run m] present
  have "\<exists>s1 r1 v1 s2 r2 v2. s1 \<noteq> s2 \<and> (s1, r1) \<in> set ?data' \<and> (s2, r2) \<in> set ?data'
         \<and> (''Provided sex chromosome ploidy'', v1) \<in> set r1
         \<and> (''Provided sex chromosome ploidy'', v2) \<in> set r2 \<and> \<not> py_eq v1 v2"
    by blast
  with run show ?thesis by blast
qed

section \<open>The metadata builder\<close>

text \<open>
  Claim C9. \<^verbatim>\<open>make_mapping_stats_headers\<close> reads its argument only through the tests
  \<^verbatim>\<open>id_in_data + ' pct' in metric_names\<close>, so two collections with the same elements
  give the same pair of mappings, keys, columns and order alike. The keys of the
  column metadata are, in the order of \<^verbatim>\<open>MAPPING_METRICS\<close>, each identifier preceded by
  its \<^verbatim>\<open>pct\<close> key when that key is among the metric names; the keys of the beeswarm
  metadata are the identifiers of the entries shown in the beeswarm plot, in the order
  of \<^verbatim>\<open>MAPPING_METRICS\<close>. And the metric names that lines 63 to 67 collect from the
  documents are the same set in whatever order the documents come, so the result does
  not depend on that order.
\<close>

theorem headers_depend_on_name_set:
  "(set ns = set ns' \<longrightarrow>
      make_mapping_stats_headers rnd cfg ns = make_mapping_stats_headers rnd cfg ns')
   \<and> map fst (fst (make_mapping_stats_headers rnd cfg ns))
       = concat (map (\<lambda>m. (if fst m @ '' pct'' \<in> set ns then [fst m @ '' pct''] else []) @ [fst m])
                   MAPPING_METRICS)
   \<and> map fst (snd (make_mapping_stats_headers rnd cfg ns))
       = map fst (filter (\<lambda>(id_in_data, title, showing, unit, show_in_beeswarm, descr). show_in_beeswarm)
                    MAPPING_METRICS)
   \<and> (set docs = set docs' \<longrightarrow>
        make_mapping_stats_headers rnd cfg (fst (names_loop docs ([], d)))
        = make_mapping_stats_headers rnd cfg (fst (names_loop docs' ([], d'))))"
proof (intro conjI impI)
  assume "set ns = set ns'"
  then show "make_mapping_stats_headers rnd cfg ns = make_mapping_stats_headers rnd cfg ns'"
    unfolding make_mapping_stats_headers_def by (rule headers_over_names)
next
  show "map fst (fst (make_mapping_stats_headers rnd cfg ns))
       = concat (map (\<lambda>m. (if fst m @ '' pct'' \<in> set ns then [fst m @ '' pct''] else []) @ [fst m])
                   MAPPING_METRICS)"
    unfolding make_mapping_stats_headers_def
    using headers_over_keys [OF catalog_distinct catalog_last] by blast
next
  show "map fst (snd (make_mapping_stats_headers rnd cfg ns))
       = map fst (filter (\<lambda>(id_in_data, title, showing, unit, show_in_beeswarm, descr). show_in_beeswarm)
                    MAPPING_METRICS)"
    unfolding make_mapping_stats_headers_def
    using headers_over_keys [OF catalog_distinct catalog_last] by blast
next
  assume "set docs = set docs'"
  then have "set (fst (names_loop docs ([], d))) = set (fst (names_loop docs' ([], d')))"
    by (simp add: names_loop_set)
  then show "make_mapping_stats_headers rnd cfg (fst (names_loop docs ([], d)))
        = make_mapping_stats_headers rnd cfg (fst (names_loop docs' ([], d')))"
    unfolding make_mapping_stats_headers_def by (rule headers_over_names)
qed


theorem headers_depend_on_name_set_witness:
  "fst (names_loop [(''A'', [(''RG1'', [(''Mapped reads'', IntV 1), (''Mapped reads pct'', IntV 2)])]),
                    (''B'', [(''RG1'', [(''Mapped reads pct'', IntV 3), (''Unmapped reads'', IntV 4)])])]
          ([], []))
     = [''Mapped reads'', ''Mapped reads pct'', ''Unmapped reads'']
   \<and> fst (names_loop [(''B'', [(''RG1'', [(''Mapped reads pct'', IntV 3), (''Unmapped reads'', IntV 4)])]),
                      (''A'', [(''RG1'', [(''Mapped reads'', IntV 1), (''Mapped reads pct'', IntV 2)])])]
          ([], []))
     = [''Mapped reads pct'', ''Unmapped reads'', ''Mapped reads'']
   \<and> make_mapping_stats_headers Fin example_config [''Mapped reads'', ''Mapped reads pct'', ''Unmapped reads'']
     = make_mapping_stats_headers Fin example_config [''Mapped reads pct'', ''Unmapped reads'', ''Mapped reads'']
   \<and> make_mapping_stats_headers Fin example_config
        (fst (names_loop [(''A'', [(''RG1'', [(''Mapped reads'', IntV 1), (''Mapped reads pct'', IntV 2)])]),
                          (''B'', [(''RG1'', [(''Mapped reads pct'', IntV 3), (''Unmapped reads'', IntV 4)])])]
                ([], [])))
     = make_mapping_stats_headers Fin example_config
        (fst (names_loop [(''B'', [(''RG1'', [(''Mapped reads pct'', IntV 3), (''Unmapped reads'', IntV 4)])]),
                          (''A'', [(''RG1'', [(''Mapped reads'', IntV 1), (''Mapped reads pct'', IntV 2)])])]
                ([], [])))"
proof -
  let ?A = "(''A'', [(''RG1'', [(''Mapped reads'', IntV 1), (''Mapped reads pct'', IntV 2)])])"
  let ?B = "(''B'', [(''RG1'', [(''Mapped reads pct'', IntV 3), (''Unmapped reads'', IntV 4)])])"
  have n1: "fst (names_loop [?A, ?B] ([], []))
            = [''Mapped reads'', ''Mapped reads pct'', ''Unmapped reads'']"
    by (simp add: add_names_def names_add_def)
  have n2: "fst (names_loop [?B, ?A] ([], []))
            = [''Mapped reads pct'', ''Unmapped reads'', ''Mapped reads'']"
    by (simp add: add_names_def names_add_def)
  have s1: "set [''Mapped reads'', ''Mapped reads pct'', ''Unmapped reads'']
            = set [''Mapped reads pct'', ''Unmapped reads'', ''Mapped reads'']"
    by auto
  have s2: "set [?A, ?B] = set [?B, ?A]" by auto
  note c = headers_depend_on_name_set [where ns = "[''Mapped reads'', ''Mapped reads pct'', ''Unmapped reads'']"
                and ns' = "[''Mapped reads pct'', ''Unmapped reads'', ''Mapped reads'']"
                and docs = "[?A, ?B]" and docs' = "[?B, ?A]" and rnd = Fin and cfg = example_config
                and d = "[]" and d' = "[]"]
  have h1: "make_mapping_stats_headers Fin example_config [''Mapped reads'', ''Mapped reads pct'', ''Unmapped reads'']
     = make_mapping_stats_headers Fin example_config [''Mapped reads pct'', ''Unmapped reads'', ''Mapped reads'']"
    using c [THEN conjunct1] s1 by (rule mp)
  have h2: "make_mapping_stats_headers Fin example_config (fst (names_loop [?A, ?B] ([], [])))
     = make_mapping_stats_headers Fin example_config (fst (names_loop [?B, ?A] ([], [])))"
    using c [THEN conjunct2, THEN conjunct2, THEN conjunct2] s2 by (rule mp)
  from n1 n2 h1 h2 show ?thesis by (intro conjI)
qed

end
